theory Spec2Isabelle
  imports Main "HOL-Library.Sublist"
begin

section \<open>Text\<close>

text \<open>
  A Python \<^verbatim>\<open>str\<close> is a sequence of Unicode code points, and the agents slice, strip and
  match it code point by code point. A character is therefore the number of its code
  point and a text is a list of them. ASCII literals of the source are written with
  \<open>lit\<close>; the source's Chinese literals are written out as code points.
\<close>

type_synonym str = "nat list"

definition lit :: "string \<Rightarrow> str" where
  "lit s = map of_char s"

text \<open>
  \<^verbatim>\<open>str.strip()\<close> removes the characters for which \<^verbatim>\<open>str.isspace()\<close> holds from both
  ends: the ASCII controls 9 to 13 and 28 to 31, the blank, U+0085, U+00A0, U+1680,
  U+2000 to U+200A, U+2028, U+2029, U+202F, U+205F and U+3000.
\<close>

definition is_space :: "nat \<Rightarrow> bool" where
  "is_space c =
     (c \<in> {9, 10, 11, 12, 13, 28, 29, 30, 31, 32, 133, 160, 5760, 8232, 8233, 8239, 8287, 12288}
      \<or> (8192 \<le> c \<and> c \<le> 8202))"

definition strip :: "str \<Rightarrow> str" where
  "strip s = rev (dropWhile is_space (rev (dropWhile is_space s)))"

text \<open>
  The class \<^verbatim>\<open>\w\<close> of a \<^verbatim>\<open>str\<close> pattern holds the underscore and every alphanumeric
  character. On ASCII these are the digits and the letters. Beyond ASCII the answer is a
  table of the Unicode database inside the Python runtime; the embedding takes that
  table as the parameter \<open>uni\<close> and every theorem holds for each table.
\<close>

definition ascii_alnum :: "nat \<Rightarrow> bool" where
  "ascii_alnum c = ((48 \<le> c \<and> c \<le> 57) \<or> (65 \<le> c \<and> c \<le> 90) \<or> (97 \<le> c \<and> c \<le> 122))"

definition is_word :: "(nat \<Rightarrow> bool) \<Rightarrow> nat \<Rightarrow> bool" where
  "is_word uni c = (c = 95 \<or> (if c < 128 then ascii_alnum c else uni c))"

text \<open>
  \<open>falsy r\<close> is the source's \<^verbatim>\<open>not r\<close> for a value that is \<^verbatim>\<open>None\<close> or a \<^verbatim>\<open>str\<close>: it holds
  of \<^verbatim>\<open>None\<close> and of the empty text. \<open>or_empty r\<close> is the source's \<^verbatim>\<open>r or ""\<close>.
\<close>

definition falsy :: "str option \<Rightarrow> bool" where
  "falsy r = (case r of None \<Rightarrow> True | Some s \<Rightarrow> s = [])"

definition or_empty :: "str option \<Rightarrow> str" where
  "or_empty r = (case r of None \<Rightarrow> [] | Some s \<Rightarrow> s)"

text \<open>\<^verbatim>\<open>sep.join(xs)\<close>.\<close>

fun join :: "str \<Rightarrow> str list \<Rightarrow> str" where
  "join sep [] = []"
| "join sep [x] = x"
| "join sep (x # y # ys) = x @ sep @ join sep (y # ys)"

text \<open>
  \<open>find_after pat s\<close> is the text that follows the leftmost occurrence of \<open>pat\<close> in
  \<open>s\<close>, when there is one.
\<close>

fun find_after :: "str \<Rightarrow> str \<Rightarrow> str option" where
  "find_after pat [] = (if pat = [] then Some [] else None)"
| "find_after pat (c # cs) =
     (if prefix pat (c # cs) then Some (drop (length pat) (c # cs)) else find_after pat cs)"

text \<open>
  The exceptions of the two agents: those that leave \<^verbatim>\<open>ReActAgent.run\<close> and
  \<^verbatim>\<open>Executor.execute\<close>, and those the planner catches.
\<close>

datatype error =
  AttributeError | UnboundLocalError | IndexError | SyntaxError | ValueError | OtherException

text \<open>
  \<^verbatim>\<open>s.split(sep)\<close> for a separator that is not empty (the two separators of the source
  are literals): the text is cut at the occurrences of \<open>sep\<close>, found from left to right
  without overlap. \<open>getitem\<close> is indexing with a natural number, which raises
  \<^verbatim>\<open>IndexError\<close> beyond the end.
\<close>

fun py_split :: "str \<Rightarrow> str \<Rightarrow> str list" where
  "py_split sep [] = [[]]"
| "py_split sep (c # cs) =
     (if prefix sep (c # cs) then [] # py_split sep (drop (length sep - 1) cs)
      else (case py_split sep cs of
              [] \<Rightarrow> [[c]]
            | x # xs \<Rightarrow> (c # x) # xs))"

definition getitem :: "'a list \<Rightarrow> nat \<Rightarrow> error + 'a" where
  "getitem xs i = (if i < length xs then Inr (xs ! i) else Inl IndexError)"

text \<open>The decimal digits of a natural number, \<^verbatim>\<open>str(n)\<close>.\<close>

function str_nat :: "nat \<Rightarrow> str" where
  "str_nat n = (if n < 10 then [48 + n] else str_nat (n div 10) @ [48 + n mod 10])"
  by pat_completeness auto
termination
  by (relation "measure (\<lambda>n. n)") auto

section \<open>Regular expressions of the ReAct agent\<close>

text \<open>
  \<^verbatim>\<open>re.search(marker + "(.*)", text).group(1)\<close> for a marker of literal characters: the
  search succeeds at the leftmost occurrence of the marker (the group may be empty),
  and the greedy group takes every character up to the next line feed, the only
  character the dot refuses.
\<close>

definition re_search_line :: "str \<Rightarrow> str \<Rightarrow> str option" where
  "re_search_line marker text = map_option (takeWhile (\<lambda>c. c \<noteq> 10)) (find_after marker text)"

text \<open>
  \<^verbatim>\<open>(.*)\]\<close> matched at the start of \<open>s\<close>: the greedy group runs to the end of the line
  and backs off to the last \<^verbatim>\<open>]\<close> (code point 93) of that line, so the group is the
  text of the line before its last \<^verbatim>\<open>]\<close>. There is no match when the line holds none.
\<close>

definition bracket_group :: "str \<Rightarrow> str option" where
  "bracket_group s =
     (let line = takeWhile (\<lambda>c. c \<noteq> 10) s
      in if 93 \<in> set line then Some (rev (tl (dropWhile (\<lambda>c. c \<noteq> 93) (rev line)))) else None)"

text \<open>\<^verbatim>\<open>re.match(r"Finish\[(.*)\]", action)\<close>: the group of the match, or \<open>None\<close>.\<close>

definition re_match_finish :: "str \<Rightarrow> str option" where
  "re_match_finish action =
     (if prefix (lit ''Finish['') action then bracket_group (drop 7 action) else None)"

section \<open>The language model client and the tool registry\<close>

text \<open>
  A chat message, and the language model client. \<^verbatim>\<open>HelloAgentsLLM.think\<close> sends the
  messages to a remote model and returns the concatenated stream, or \<^verbatim>\<open>None\<close> when the
  request fails (the method catches every exception). What the model answers is not
  decided by the program, so the client is a function from the requests made so far
  (the current one last) to the answer of the current one. The list of requests is
  the record of the model calls of a run.
\<close>

record message =
  role :: str
  content :: str

type_synonym llm = "message list list \<Rightarrow> str option"

text \<open>
  The tool registry (module \<^verbatim>\<open>tools\<close>, which is not among the sources) enters through the
  two methods the loop calls: the listing of the tools and the lookup of a tool by name,
  \<open>None\<close> for a name that is not registered. A tool maps its input text to its
  observation text.
\<close>

record ToolExecutor =
  getAvailableTools :: str
  getTool :: "str \<Rightarrow> (str \<Rightarrow> str) option"

section \<open>The ReAct agent (main.py)\<close>

text \<open>
  \<^verbatim>\<open>ReActAgent._parse_output\<close>: the stripped remainders of the first \<^verbatim>\<open>Thought: \<close> and
  of the first \<^verbatim>\<open>Action: \<close> match, each \<open>None\<close> when its pattern does not match.
\<close>

definition parse_output :: "str \<Rightarrow> str option \<times> str option" where
  "parse_output text =
     (let thought_match = re_search_line (lit ''Thought: '') text;
          action_match = re_search_line (lit ''Action: '') text
      in (map_option strip thought_match, map_option strip action_match))"

text \<open>
  \<^verbatim>\<open>ReActAgent._parse_action\<close>, that is \<^verbatim>\<open>re.match(r"(\w+)\[(.*)\]", action_text)\<close>.
  The first group is the longest run of word characters at the start: a shorter run is
  followed by a word character, which is never \<^verbatim>\<open>[\<close> (code point 91). The run must not
  be empty and \<^verbatim>\<open>[\<close> must follow it. The result is the pair of groups, or the pair
  \<^verbatim>\<open>(None, None)\<close>.
\<close>

definition parse_action :: "(nat \<Rightarrow> bool) \<Rightarrow> str \<Rightarrow> str option \<times> str option" where
  "parse_action uni action_text =
     (let name = takeWhile (is_word uni) action_text;
          rest = dropWhile (is_word uni) action_text
      in if name \<noteq> [] \<and> prefix [91] rest then
           (case bracket_group (tl rest) of
              Some payload \<Rightarrow> (Some name, Some payload)
            | None \<Rightarrow> (None, None))
         else (None, None))"

text \<open>
  \<^verbatim>\<open>REACT_PROMPT_TEMPLATE\<close>, cut at its three placeholders (tools, question, history);
  the doubled braces of the template stand for single ones.
\<close>

definition REACT_PROMPT_TEMPLATE_0 :: str where
  "REACT_PROMPT_TEMPLATE_0 =
    [10, 35831, 27880, 24847, 65292, 20320, 26159, 19968, 20010, 26377, 33021, 21147, 35843,
     29992, 22806, 37096, 24037, 20855, 30340, 26234, 33021, 21161, 25163, 12290, 10, 10,
     21487, 29992, 24037, 20855, 22914, 19979, 58, 10]"

definition REACT_PROMPT_TEMPLATE_1 :: str where
  "REACT_PROMPT_TEMPLATE_1 =
    [10, 10, 35831, 20005, 26684, 25353, 29031, 20197, 19979, 26684, 24335, 36827, 34892,
     22238, 24212, 58, 10, 10, 84, 104, 111, 117, 103, 104, 116, 58, 32, 20320, 30340, 24605,
     32771, 36807, 31243, 65292, 29992, 20110, 20998, 26512, 38382, 39064, 12289, 25286,
     35299, 20219, 21153, 21644, 35268, 21010, 19979, 19968, 27493, 34892, 21160, 12290, 10,
     65, 99, 116, 105, 111, 110, 58, 32, 20320, 20915, 23450, 37319, 21462, 30340, 34892,
     21160, 65292, 24517, 39035, 26159, 20197, 19979, 26684, 24335, 20043, 19968, 58, 10, 45,
     32, 96, 123, 116, 111, 111, 108, 95, 110, 97, 109, 101, 125, 91, 123, 116, 111, 111, 108,
     95, 105, 110, 112, 117, 116, 125, 93, 96, 58, 35843, 29992, 19968, 20010, 21487, 29992,
     24037, 20855, 12290, 10, 45, 32, 96, 70, 105, 110, 105, 115, 104, 91, 26368, 32456,
     31572, 26696, 93, 96, 58, 24403, 20320, 35748, 20026, 24050, 32463, 33719, 24471, 26368,
     32456, 31572, 26696, 26102, 12290, 10, 45, 32, 24403, 20320, 25910, 38598, 21040, 36275,
     22815, 30340, 20449, 24687, 65292, 33021, 22815, 22238, 31572, 29992, 25143, 30340,
     26368, 32456, 38382, 39064, 26102, 65292, 20320, 24517, 39035, 22312, 65, 99, 116, 105,
     111, 110, 58, 23383, 27573, 21518, 20351, 29992, 32, 102, 105, 110, 105, 115, 104, 40,
     97, 110, 115, 119, 101, 114, 61, 34, 46, 46, 46, 34, 41, 32, 26469, 36755, 20986, 26368,
     32456, 31572, 26696, 12290, 10, 10, 29616, 22312, 65292, 35831, 24320, 22987, 35299,
     20915, 20197, 19979, 38382, 39064, 58, 10, 81, 117, 101, 115, 116, 105, 111, 110, 58, 32]"

definition REACT_PROMPT_TEMPLATE_2 :: str where
  "REACT_PROMPT_TEMPLATE_2 =
    [10, 72, 105, 115, 116, 111, 114, 121, 58, 32]"

definition REACT_PROMPT_TEMPLATE_3 :: str where
  "REACT_PROMPT_TEMPLATE_3 =
    [10]"

record ReActAgent =
  llmClient :: llm
  toolExecutor :: ToolExecutor
  maxSteps :: int

definition react_prompt :: "str \<Rightarrow> str \<Rightarrow> str \<Rightarrow> str" where
  "react_prompt tools question history_str =
     REACT_PROMPT_TEMPLATE_0 @ tools @ REACT_PROMPT_TEMPLATE_1 @ question @
     REACT_PROMPT_TEMPLATE_2 @ history_str @ REACT_PROMPT_TEMPLATE_3"

text \<open>The observation of a tool that is not registered.\<close>

definition tool_not_found :: "str \<Rightarrow> str" where
  "tool_not_found tool_name =
     [38169, 35823, 58, 26410, 25214, 21040, 21517, 20026, 32, 39] @ tool_name @
     [39, 32, 30340, 24037, 20855, 12290]"

text \<open>
  How one pass through the loop body ends, and what the pass did. The source prints a
  different line in each branch of the body; \<open>event\<close> names the branch: no response, no
  action, a final answer, a \<^verbatim>\<open>Finish\<close> action whose pattern does not match, an action that
  is no tool call, a tool call (action, name, observation) whose tool is missing, and a
  tool call (action, name, observation) that ran.
\<close>

datatype control = Break | Continue | Return str | Raise error

datatype event =
  NoResponse
  | NoAction
  | Finished str
  | FinishMalformed
  | Unparsed
  | ToolMissing str str str
  | ToolInvoked str str str

text \<open>
  The body of the loop of \<^verbatim>\<open>ReActAgent.run\<close> from the test of the response on: the
  control transfer it ends in, the history it leaves, and the branch it took.
\<close>

definition react_body ::
  "(nat \<Rightarrow> bool) \<Rightarrow> ToolExecutor \<Rightarrow> str list \<Rightarrow> str option \<Rightarrow> control \<times> str list \<times> event" where
  "react_body uni tools history response_text =
     (if falsy response_text then (Break, history, NoResponse)
      else
        let (thought, action) = parse_output (or_empty response_text) in
        if falsy action then (Break, history, NoAction)
        else
          let action = or_empty action in
          if prefix (lit ''Finish'') action then
            (case re_match_finish action of
               None \<Rightarrow> (Raise AttributeError, history, FinishMalformed)
             | Some final_answer \<Rightarrow> (Return final_answer, history, Finished final_answer))
          else
            let (tool_name, tool_input) = parse_action uni action in
            if falsy tool_name \<or> falsy tool_input then (Continue, history, Unparsed)
            else
              let tool_name = or_empty tool_name; tool_input = or_empty tool_input in
              (case getTool tools tool_name of
                 None \<Rightarrow>
                   let observation = tool_not_found tool_name
                   in (Continue, history, ToolMissing action tool_name observation)
               | Some tool_function \<Rightarrow>
                   let observation = tool_function tool_input
                   in (Continue,
                       history @ [lit ''Action: '' @ action, lit ''Observation: '' @ observation],
                       ToolInvoked action tool_name observation)))"

text \<open>
  The state of a run: the history of the agent, the requests sent to the model, and the
  branches taken, one per pass.
\<close>

record run_state =
  history :: "str list"
  calls :: "message list list"
  events :: "event list"

text \<open>
  The loop of \<^verbatim>\<open>ReActAgent.run\<close>. \<open>react_request\<close> is the message list a pass sends: one
  user message holding the template filled with the tool listing, the question and the
  history joined by line feeds. \<open>react_pass\<close> is one pass through the body: it sends the
  request, runs \<open>react_body\<close> on the answer and records the request and the branch.
  \<open>react_loop\<close> is the \<^verbatim>\<open>while\<close> loop with its counter. The result is \<open>Inr (Some answer)\<close> for a returned
  answer, \<open>Inr None\<close> for \<^verbatim>\<open>return None\<close> and \<open>Inl e\<close> for an exception that leaves
  \<open>run\<close>.
\<close>

definition react_request :: "ReActAgent \<Rightarrow> str \<Rightarrow> run_state \<Rightarrow> message list" where
  "react_request agent question st =
     (let tool_desc = getAvailableTools (toolExecutor agent);
          history_str = join [10] (history st);
          prompt = react_prompt tool_desc question history_str
      in [\<lparr>role = lit ''user'', content = prompt\<rparr>])"

definition react_pass ::
  "(nat \<Rightarrow> bool) \<Rightarrow> ReActAgent \<Rightarrow> str \<Rightarrow> run_state \<Rightarrow> control \<times> run_state" where
  "react_pass uni agent question st =
     (let messages = react_request agent question st;
          requests = calls st @ [messages];
          response_text = llmClient agent requests;
          (ctl, history', ev) = react_body uni (toolExecutor agent) (history st) response_text
      in (ctl, \<lparr>history = history', calls = requests, events = events st @ [ev]\<rparr>))"

function react_loop ::
  "(nat \<Rightarrow> bool) \<Rightarrow> ReActAgent \<Rightarrow> str \<Rightarrow> int \<Rightarrow> run_state \<Rightarrow> (error + str option) \<times> run_state" where
  "react_loop uni agent question current_step st =
     (if current_step < maxSteps agent then
        (case react_pass uni agent question st of
           (Break, st') \<Rightarrow> (Inr None, st')
         | (Return final_answer, st') \<Rightarrow> (Inr (Some final_answer), st')
         | (Raise e, st') \<Rightarrow> (Inl e, st')
         | (Continue, st') \<Rightarrow> react_loop uni agent question (current_step + 1) st')
      else (Inr None, st))"
  by pat_completeness auto
termination
  by (relation "measure (\<lambda>(uni, agent, question, current_step, st). nat (maxSteps agent - current_step))") auto

text \<open>\<^verbatim>\<open>ReActAgent.run\<close>: the history is reset and the counter starts at 0.\<close>

definition react_run ::
  "(nat \<Rightarrow> bool) \<Rightarrow> ReActAgent \<Rightarrow> str \<Rightarrow> (error + str option) \<times> run_state" where
  "react_run uni agent question =
     react_loop uni agent question 0 \<lparr>history = [], calls = [], events = []\<rparr>"

section \<open>The Plan-and-Solve agent (plan-executor.py)\<close>

text \<open>
  The values a Python literal can denote. Texts and lists are what the agent looks at;
  \<open>PyOther\<close> stands for every other value (a number, a tuple, a dictionary and so on);
  its argument tells such values apart.
\<close>

datatype pyval = PyStr str | PyList "pyval list" | PyOther str

text \<open>
  Two functions of the Python runtime are parameters of the embedding:
  \<open>literal_eval\<close>, which is \<^verbatim>\<open>ast.literal_eval\<close> and gives the value of a literal or the
  exception it raises, and \<open>repr\<close>, the printed form of a value. Formatting a value into
  a text with \<^verbatim>\<open>{...}\<close> gives a text as it is and the \<open>repr\<close> of any other value.
\<close>

definition format_value :: "(pyval \<Rightarrow> str) \<Rightarrow> pyval \<Rightarrow> str" where
  "format_value repr v = (case v of PyStr s \<Rightarrow> s | _ \<Rightarrow> repr v)"

text \<open>
  \<^verbatim>\<open>PLANNER_PROMPT_TEMPLATE\<close>, cut at its placeholder (question), and
  \<^verbatim>\<open>EXECUTOR_PROMPT_TEMPLATE\<close>, cut at its four placeholders (question, plan, history,
  current_step).
\<close>

definition PLANNER_PROMPT_TEMPLATE_0 :: str where
  "PLANNER_PROMPT_TEMPLATE_0 =
    [10, 20320, 26159, 19968, 20010, 39030, 32423, 30340, 65, 73, 35268, 21010, 19987, 23478,
     12290, 20320, 30340, 20219, 21153, 26159, 23558, 29992, 25143, 25552, 20986, 30340,
     22797, 26434, 38382, 39064, 20998, 35299, 25104, 19968, 20010, 30001, 22810, 20010,
     31616, 21333, 27493, 39588, 32452, 25104, 30340, 34892, 21160, 35745, 21010, 12290, 10,
     35831, 30830, 20445, 35745, 21010, 20013, 30340, 27599, 20010, 27493, 39588, 37117,
     26159, 19968, 20010, 29420, 31435, 30340, 12289, 21487, 25191, 34892, 30340, 23376,
     20219, 21153, 65292, 24182, 19988, 20005, 26684, 25353, 29031, 36923, 36753, 39034,
     24207, 25490, 21015, 12290, 10, 20320, 30340, 36755, 20986, 24517, 39035, 26159, 19968,
     20010, 80, 121, 116, 104, 111, 110, 21015, 34920, 65292, 20854, 20013, 27599, 20010,
     20803, 32032, 37117, 26159, 19968, 20010, 25551, 36848, 23376, 20219, 21153, 30340,
     23383, 31526, 20018, 12290, 10, 10, 38382, 39064, 58, 32]"

definition PLANNER_PROMPT_TEMPLATE_1 :: str where
  "PLANNER_PROMPT_TEMPLATE_1 =
    [10, 10, 35831, 20005, 26684, 25353, 29031, 20197, 19979, 26684, 24335, 36755, 20986,
     20320, 30340, 35745, 21010, 44, 96, 96, 96, 112, 121, 116, 104, 111, 110, 19982, 96, 96,
     96, 20316, 20026, 21069, 21518, 32512, 26159, 24517, 35201, 30340, 58, 10, 96, 96, 96,
     112, 121, 116, 104, 111, 110, 10, 91, 34, 27493, 39588, 49, 34, 44, 32, 34, 27493, 39588,
     50, 34, 44, 32, 34, 27493, 39588, 51, 34, 44, 32, 46, 46, 46, 93, 10, 96, 96, 96, 10]"

definition EXECUTOR_PROMPT_TEMPLATE_0 :: str where
  "EXECUTOR_PROMPT_TEMPLATE_0 =
    [10, 20320, 26159, 19968, 20301, 39030, 32423, 30340, 65, 73, 25191, 34892, 19987, 23478,
     12290, 20320, 30340, 20219, 21153, 26159, 20005, 26684, 25353, 29031, 32473, 23450,
     30340, 35745, 21010, 65292, 19968, 27493, 27493, 22320, 35299, 20915, 38382, 39064,
     12290, 10, 20320, 23558, 25910, 21040, 21407, 22987, 38382, 39064, 12289, 23436, 25972,
     30340, 35745, 21010, 12289, 20197, 21450, 21040, 30446, 21069, 20026, 27490, 24050,
     32463, 23436, 25104, 30340, 27493, 39588, 21644, 32467, 26524, 12290, 10, 35831, 20320,
     19987, 27880, 20110, 35299, 20915, 8220, 24403, 21069, 27493, 39588, 8221, 65292, 24182,
     20165, 36755, 20986, 35813, 27493, 39588, 30340, 26368, 32456, 31572, 26696, 65292,
     19981, 35201, 36755, 20986, 20219, 20309, 39069, 22806, 30340, 35299, 37322, 25110,
     23545, 35805, 12290, 10, 10, 35, 32, 21407, 22987, 38382, 39064, 58, 10]"

definition EXECUTOR_PROMPT_TEMPLATE_1 :: str where
  "EXECUTOR_PROMPT_TEMPLATE_1 =
    [10, 10, 35, 32, 23436, 25972, 35745, 21010, 58, 10]"

definition EXECUTOR_PROMPT_TEMPLATE_2 :: str where
  "EXECUTOR_PROMPT_TEMPLATE_2 =
    [10, 10, 35, 32, 21382, 21490, 27493, 39588, 19982, 32467, 26524, 58, 10]"

definition EXECUTOR_PROMPT_TEMPLATE_3 :: str where
  "EXECUTOR_PROMPT_TEMPLATE_3 =
    [10, 10, 35, 32, 24403, 21069, 27493, 39588, 58, 10]"

definition EXECUTOR_PROMPT_TEMPLATE_4 :: str where
  "EXECUTOR_PROMPT_TEMPLATE_4 =
    [10, 10, 35831, 20165, 36755, 20986, 38024, 23545, 8220, 24403, 21069, 27493, 39588, 8221,
     30340, 22238, 31572, 58, 10]"

text \<open>The two fences, \<^verbatim>\<open>```python\<close> and \<^verbatim>\<open>```\<close> (code point 96 is the backquote).\<close>

definition FENCE_PYTHON :: str where
  "FENCE_PYTHON = [96, 96, 96, 112, 121, 116, 104, 111, 110]"

definition FENCE :: str where
  "FENCE = [96, 96, 96]"

text \<open>
  \<^verbatim>\<open>Planner.plan\<close>. \<open>plan_str\<close> is the first statement of the \<^verbatim>\<open>try\<close> block: the text
  between the first opening fence and the fence that follows it, stripped, or the
  \<^verbatim>\<open>IndexError\<close> of the index 1. \<open>parse_plan\<close> is the whole \<^verbatim>\<open>try\<close> block. Both
  \<^verbatim>\<open>except\<close> clauses return the empty list, and between them they catch every exception.
\<close>

definition plan_str :: "str \<Rightarrow> error + str" where
  "plan_str response_text =
     (case getitem (py_split FENCE_PYTHON response_text) 1 of
        Inl e \<Rightarrow> Inl e
      | Inr fenced \<Rightarrow>
          (case getitem (py_split FENCE fenced) 0 of
             Inl e \<Rightarrow> Inl e
           | Inr inner \<Rightarrow> Inr (strip inner)))"

definition parse_plan :: "(str \<Rightarrow> error + pyval) \<Rightarrow> str \<Rightarrow> error + pyval list" where
  "parse_plan literal_eval response_text =
     (case plan_str response_text of
        Inl e \<Rightarrow> Inl e
      | Inr s \<Rightarrow>
          (case literal_eval s of
             Inl e \<Rightarrow> Inl e
           | Inr plan \<Rightarrow> Inr (case plan of PyList steps \<Rightarrow> steps | _ \<Rightarrow> [])))"

definition planner_request :: "str \<Rightarrow> message list" where
  "planner_request question =
     (let prompt = PLANNER_PROMPT_TEMPLATE_0 @ question @ PLANNER_PROMPT_TEMPLATE_1
      in [\<lparr>role = lit ''user'', content = prompt\<rparr>])"

definition planner_plan ::
  "(str \<Rightarrow> error + pyval) \<Rightarrow> llm \<Rightarrow> message list list \<Rightarrow> str \<Rightarrow> pyval list \<times> message list list" where
  "planner_plan literal_eval llm_client requests question =
     (let messages = planner_request question;
          requests = requests @ [messages];
          response_text = or_empty (llm_client requests)
      in (case parse_plan literal_eval response_text of
            Inl e \<Rightarrow> ([], requests)
          | Inr plan \<Rightarrow> (plan, requests)))"

text \<open>
  \<^verbatim>\<open>Executor.execute\<close>. The state of its loop is the transcript \<^verbatim>\<open>history\<close>, the variable
  \<^verbatim>\<open>response_text\<close> (\<open>None\<close> while it is unbound) and the requests sent to the model.
  \<open>executor_request\<close> is the message list of one step and \<open>step_block\<close> the block
  the step appends to the transcript. After the loop the function returns
  \<^verbatim>\<open>response_text\<close>, which is unbound when the plan was empty.
\<close>

record exec_state =
  exec_history :: str
  exec_response :: "str option"
  exec_calls :: "message list list"

definition executor_request ::
  "(pyval \<Rightarrow> str) \<Rightarrow> str \<Rightarrow> pyval list \<Rightarrow> str \<Rightarrow> pyval \<Rightarrow> message list" where
  "executor_request repr question plan history_str step =
     (let prompt =
        EXECUTOR_PROMPT_TEMPLATE_0 @ question @
        EXECUTOR_PROMPT_TEMPLATE_1 @ repr (PyList plan) @
        EXECUTOR_PROMPT_TEMPLATE_2 @ (if history_str \<noteq> [] then history_str else [26080]) @
        EXECUTOR_PROMPT_TEMPLATE_3 @ format_value repr step @
        EXECUTOR_PROMPT_TEMPLATE_4
      in [\<lparr>role = lit ''user'', content = prompt\<rparr>])"

definition step_block :: "(pyval \<Rightarrow> str) \<Rightarrow> nat \<Rightarrow> pyval \<Rightarrow> str \<Rightarrow> str" where
  "step_block repr i step response_text =
     [27493, 39588, 32] @ str_nat (i + 1) @ lit '': '' @ format_value repr step @
     [10, 32467, 26524, 58, 32] @ response_text @ [10, 10]"

fun execute_loop ::
  "(pyval \<Rightarrow> str) \<Rightarrow> llm \<Rightarrow> str \<Rightarrow> pyval list \<Rightarrow> nat \<Rightarrow> pyval list \<Rightarrow> exec_state \<Rightarrow> exec_state" where
  "execute_loop repr llm_client question plan i [] st = st"
| "execute_loop repr llm_client question plan i (step # steps) st =
     (let messages = executor_request repr question plan (exec_history st) step;
          requests = exec_calls st @ [messages];
          response_text = or_empty (llm_client requests);
          history' = exec_history st @ step_block repr i step response_text
      in execute_loop repr llm_client question plan (i + 1) steps
           \<lparr>exec_history = history', exec_response = Some response_text, exec_calls = requests\<rparr>)"

definition execute ::
  "(pyval \<Rightarrow> str) \<Rightarrow> llm \<Rightarrow> message list list \<Rightarrow> str \<Rightarrow> pyval list \<Rightarrow> (error + str) \<times> message list list" where
  "execute repr llm_client requests question plan =
     (let st = execute_loop repr llm_client question plan 0 plan
                 \<lparr>exec_history = [], exec_response = None, exec_calls = requests\<rparr>
      in (case exec_response st of
            None \<Rightarrow> (Inl UnboundLocalError, exec_calls st)
          | Some final_answer \<Rightarrow> (Inr final_answer, exec_calls st)))"

text \<open>
  \<^verbatim>\<open>PlanAndSolveAgent.run\<close>. The planner and the executor share one client. The method
  itself returns \<^verbatim>\<open>None\<close> on both paths; the result here is the final answer it prints,
  \<open>None\<close> when it prints none, or the exception that leaves it.
\<close>

definition plan_and_solve_run ::
  "(str \<Rightarrow> error + pyval) \<Rightarrow> (pyval \<Rightarrow> str) \<Rightarrow> llm \<Rightarrow> str \<Rightarrow> (error + str option) \<times> message list list" where
  "plan_and_solve_run literal_eval repr llm_client question =
     (let (plan, requests) = planner_plan literal_eval llm_client [] question
      in if plan = [] then (Inr None, requests)
         else (case execute repr llm_client requests question plan of
                 (Inl e, requests') \<Rightarrow> (Inl e, requests')
               | (Inr final_answer, requests') \<Rightarrow> (Inr (Some final_answer), requests')))"

section \<open>Vocabulary of the properties\<close>

text \<open>
  A pass that ran a tool, the number of such passes among the branches of a run, and a
  pass whose action began with \<^verbatim>\<open>Finish\<close>.
\<close>

fun is_tool_invoked :: "event \<Rightarrow> bool" where
  "is_tool_invoked (ToolInvoked action name observation) = True"
| "is_tool_invoked _ = False"

definition tool_steps :: "event list \<Rightarrow> nat" where
  "tool_steps evs = length (filter is_tool_invoked evs)"

fun is_finish :: "event \<Rightarrow> bool" where
  "is_finish (Finished answer) = True"
| "is_finish FinishMalformed = True"
| "is_finish _ = False"


text \<open>The client that reports a failure wherever \<open>client\<close> answers with the empty text.\<close>

definition empty_as_failure :: "llm \<Rightarrow> llm" where
  "empty_as_failure client requests = (if client requests = Some [] then None else client requests)"

text \<open>
  For the executor: the result of the step whose request has index \<open>k\<close> in a list of
  requests (the answer of the client to the first \<open>k + 1\<close> requests, \<^verbatim>\<open>None\<close> read as the
  empty text), and the transcript after \<open>k\<close> steps of a plan whose first request has
  index \<open>m\<close>.
\<close>

definition step_result :: "llm \<Rightarrow> message list list \<Rightarrow> nat \<Rightarrow> str" where
  "step_result llm_client requests k = or_empty (llm_client (take (Suc k) requests))"

definition transcript ::
  "(pyval \<Rightarrow> str) \<Rightarrow> llm \<Rightarrow> message list list \<Rightarrow> pyval list \<Rightarrow> nat \<Rightarrow> nat \<Rightarrow> str" where
  "transcript repr llm_client requests plan m k =
     concat (map (\<lambda>j. step_block repr j (plan ! j) (step_result llm_client requests (m + j))) [0..<k])"

section \<open>Example inputs\<close>

text \<open>
  A Unicode table without alphanumeric characters beyond ASCII, a registry with the one
  tool of the driver (here answering with a fixed text around the query), a model that
  answers its k-th call with the k-th entry of a script and fails afterwards, and an
  agent built from them.
\<close>

definition ascii_only :: "nat \<Rightarrow> bool" where
  "ascii_only c = False"

definition example_tools :: ToolExecutor where
  "example_tools =
     \<lparr>getAvailableTools = lit ''- serp_search: a web search engine'',
      getTool = (\<lambda>name. if name = lit ''serp_search''
                         then Some (\<lambda>query. lit ''results for '' @ query) else None)\<rparr>"

definition scripted :: "str option list \<Rightarrow> llm" where
  "scripted script requests =
     (if 0 < length requests \<and> length requests \<le> length script
      then script ! (length requests - 1) else None)"

definition example_agent :: "str option list \<Rightarrow> int \<Rightarrow> ReActAgent" where
  "example_agent script n =
     \<lparr>llmClient = scripted script, toolExecutor = example_tools, maxSteps = n\<rparr>"

text \<open>
  A response with two thoughts and two actions, a response that finishes with a
  bracketed payload, the state at the start of a run, and a state after one pass that ran
  the tool.
\<close>

definition two_actions_head :: str where
  "two_actions_head = lit ''Thought: look it up'' @ [10] @ lit ''Action: serp_search[x]''"

definition two_actions_rest :: str where
  "two_actions_rest = lit ''Thought: never mind'' @ [10] @ lit ''Action: Finish[y]''"

definition finish_reply :: str where
  "finish_reply =
     lit ''Thought: search[x] gave it'' @ [10] @ lit ''Action: Finish[search[Paris] says Paris]''"

definition start_state :: run_state where
  "start_state = \<lparr>history = [], calls = [], events = []\<rparr>"


text \<open>
  For the planner and the executor: a literal evaluator that knows the list of the
  planning example and the number 42 and rejects every other text, the response of the
  planning example, the same response without its closing fence, a \<^verbatim>\<open>repr\<close>, a plan of
  three steps, and a model whose second call fails.
\<close>

definition example_literal_eval :: "str \<Rightarrow> error + pyval" where
  "example_literal_eval s =
     (if s = [91, 39, 97, 39, 44, 39, 98, 39, 93] then Inr (PyList [PyStr (lit ''a''), PyStr (lit ''b'')])
      else if s = lit ''42'' then Inr (PyOther (lit ''42''))
      else Inl SyntaxError)"

definition example_plan_text :: str where
  "example_plan_text = FENCE_PYTHON @ [10] @ [91, 39, 97, 39, 44, 39, 98, 39, 93] @ [10] @ FENCE"

definition unclosed_plan_text :: str where
  "unclosed_plan_text = FENCE_PYTHON @ [10] @ [91, 39, 97, 39, 44, 39, 98, 39, 93]"

definition example_repr :: "pyval \<Rightarrow> str" where
  "example_repr v = lit ''<value>''"

definition example_plan :: "pyval list" where
  "example_plan = [PyStr (lit ''compute Monday''), PyStr (lit ''compute Tuesday''), PyStr (lit ''sum'')]"

definition example_answers :: llm where
  "example_answers = scripted [Some (lit ''15''), None, Some (lit ''45'')]"

section \<open>Lemmas about texts\<close>

declare react_loop.simps [simp del]

lemmas text_defs = lit_def parse_output_def re_search_line_def strip_def is_space_def
  parse_action_def is_word_def ascii_alnum_def bracket_group_def re_match_finish_def falsy_def
  or_empty_def

lemma takeWhile_no_nl: "(10::nat) \<notin> set s \<Longrightarrow> takeWhile (\<lambda>c. c \<noteq> 10) s = s"
  by auto

lemma bracket_group_closed: "10 \<notin> set X \<Longrightarrow> bracket_group (X @ [93]) = Some X"
  by (simp add: bracket_group_def takeWhile_no_nl)

lemma set_strip: "set (strip s) \<subseteq> set s"
proof -
  have "set (strip s) = set (dropWhile is_space (rev (dropWhile is_space s)))"
    by (simp add: strip_def)
  also have "\<dots> \<subseteq> set (rev (dropWhile is_space s))"
    by (rule set_dropWhileD [THEN subsetI])
  also have "\<dots> \<subseteq> set s"
    using set_dropWhileD by fastforce
  finally show ?thesis .
qed

lemma re_search_line_no_nl: "re_search_line m t = Some a \<Longrightarrow> 10 \<notin> set a"
  by (auto simp: re_search_line_def dest: set_takeWhileD)

lemma parse_output_action_no_nl:
  assumes "snd (parse_output t) = Some a"
  shows "10 \<notin> set a"
proof -
  from assms obtain l where l: "re_search_line (lit ''Action: '') t = Some l" and a: "a = strip l"
    by (auto simp: parse_output_def Let_def)
  from l have "10 \<notin> set l" by (rule re_search_line_no_nl)
  with a set_strip [of l] show ?thesis by auto
qed

lemma parse_output_action_text:
  "snd (parse_output t) = Some a \<Longrightarrow> t \<noteq> []"
  by (auto simp: parse_output_def Let_def re_search_line_def lit_def)

lemma find_after_occurs:
  "find_after pat h = Some r \<Longrightarrow> \<exists>pre. h = pre @ pat @ r"
proof (induction h)
  case Nil
  then show ?case by (auto split: if_splits)
next
  case (Cons c cs)
  show ?case
  proof (cases "prefix pat (c # cs)")
    case True
    with Cons.prems have "r = drop (length pat) (c # cs)" by simp
    moreover from True have "c # cs = pat @ drop (length pat) (c # cs)"
      by (auto simp: prefix_def)
    ultimately have "c # cs = [] @ pat @ r" by simp
    then show ?thesis by blast
  next
    case False
    with Cons.prems have "find_after pat cs = Some r" by simp
    then obtain pre where "cs = pre @ pat @ r" using Cons.IH by blast
    then have "c # cs = (c # pre) @ pat @ r" by simp
    then show ?thesis by blast
  qed
qed

lemma prefix_append_short:
  assumes "prefix pat (h @ x)" and "length pat \<le> length h"
  shows "prefix pat h"
proof -
  from assms(1) obtain zs where "h @ x = pat @ zs"
    by (auto simp: prefix_def)
  then have "take (length pat) (h @ x) = pat"
    by (metis append_eq_conv_conj)
  with assms(2) have "pat = take (length pat) h" by simp
  then show ?thesis by (metis take_is_prefix)
qed

lemma drop_append_short:
  "length p \<le> length h \<Longrightarrow> drop (length p) (h @ x) = drop (length p) h @ x"
  by simp

lemma find_after_append:
  "find_after pat h = Some r \<Longrightarrow> find_after pat (h @ x) = Some (r @ x)"
proof (induction h)
  case Nil
  then show ?case by (cases x) (auto split: if_splits)
next
  case (Cons c cs)
  show ?case
  proof (cases "prefix pat (c # cs)")
    case True
    then have len: "length pat \<le> length (c # cs)" by (rule prefix_length_le)
    from True have "prefix pat ((c # cs) @ x)" by (rule prefix_prefix)
    moreover from True Cons.prems have "r = drop (length pat) (c # cs)" by simp
    ultimately show ?thesis using drop_append_short [OF len, of x] by simp
  next
    case False
    with Cons.prems have r: "find_after pat cs = Some r" by simp
    then obtain pre where "cs = pre @ pat @ r" using find_after_occurs by blast
    then have "length pat \<le> length (c # cs)" by simp
    with False have "\<not> prefix pat ((c # cs) @ x)" using prefix_append_short by blast
    with r Cons.IH show ?thesis by simp
  qed
qed

lemma re_match_finish_closed:
  assumes "10 \<notin> set X"
  shows "re_match_finish (lit ''Finish['' @ X @ lit '']'') = Some X"
  using bracket_group_closed [OF assms] by (simp add: re_match_finish_def lit_def)

lemma re_search_line_append:
  assumes "find_after marker head \<noteq> None"
  shows "re_search_line marker (head @ 10 # rest) = re_search_line marker head"
proof -
  from assms obtain r where r: "find_after marker head = Some r" by blast
  have "takeWhile (\<lambda>c. c \<noteq> 10) (r @ 10 # rest) = takeWhile (\<lambda>c. c \<noteq> (10::nat)) r"
    by (induction r) auto
  with r find_after_append [OF r, of "10 # rest"] show ?thesis
    by (simp add: re_search_line_def)
qed

lemma parse_action_greedy:
  assumes "name \<noteq> []" and "\<forall>c\<in>set name. is_word uni c" and "10 \<notin> set payload"
  shows "parse_action uni (name @ [91] @ payload @ [93]) = (Some name, Some payload)"
proof -
  have nw: "\<not> is_word uni 91" by (simp add: is_word_def ascii_alnum_def)
  from assms(2) nw have tw: "takeWhile (is_word uni) (name @ [91] @ payload @ [93]) = name"
    by simp
  from assms(2) nw have dw: "dropWhile (is_word uni) (name @ [91] @ payload @ [93]) = 91 # payload @ [93]"
    by simp
  show ?thesis
    using assms(1) bracket_group_closed [OF assms(3)]
    by (simp add: parse_action_def Let_def tw dw del: append.simps)
qed

section \<open>Lemmas about the loop of the ReAct agent\<close>

lemma react_body_cases:
  "react_body uni tools h r = (ctl, h', ev) \<Longrightarrow>
     (\<exists>a n obs. ctl = Continue \<and> ev = ToolInvoked a n obs \<and> h' = h @ [lit ''Action: '' @ a, lit ''Observation: '' @ obs])
   \<or> (h' = h \<and> \<not> is_tool_invoked ev \<and>
        (ctl = Break \<and> (ev = NoResponse \<or> ev = NoAction)
         \<or> (\<exists>a. ctl = Return a \<and> ev = Finished a)
         \<or> ctl = Raise AttributeError \<and> ev = FinishMalformed
         \<or> ctl = Continue \<and> \<not> is_finish ev))"
  by (auto simp: react_body_def Let_def split: if_splits prod.splits option.splits)

lemma react_body_failure:
  "falsy r \<Longrightarrow> react_body uni tools h r = (Break, h, NoResponse)"
  by (simp add: react_body_def)


lemma react_body_finish:
  assumes "snd (parse_output text) = Some (lit ''Finish['' @ X @ lit '']'')"
  shows "react_body uni tools h (Some text) = (Return X, h, Finished X)"
proof -
  from assms have "10 \<notin> set (lit ''Finish['' @ X @ lit '']'')"
    by (rule parse_output_action_no_nl)
  then have "10 \<notin> set X" by simp
  then have m: "re_match_finish (lit ''Finish['' @ X @ lit '']'') = Some X"
    by (rule re_match_finish_closed)
  have p: "prefix (lit ''Finish'') (lit ''Finish['' @ X @ lit '']'')"
    by (simp add: lit_def)
  have t: "text \<noteq> []" using assms by (rule parse_output_action_text)
  obtain th where po: "parse_output text = (th, Some (lit ''Finish['' @ X @ lit '']''))"
    using assms by (cases "parse_output text") simp
  have ne: "lit ''Finish['' @ X @ lit '']'' \<noteq> []" by (simp add: lit_def)
  show ?thesis
    using t ne by (simp add: react_body_def po falsy_def or_empty_def m p)
qed

lemma react_pass_eq:
  "react_pass uni agent q st =
     (fst (react_body uni (toolExecutor agent) (history st) (llmClient agent (calls st @ [react_request agent q st]))),
      \<lparr>history = fst (snd (react_body uni (toolExecutor agent) (history st) (llmClient agent (calls st @ [react_request agent q st])))),
       calls = calls st @ [react_request agent q st],
       events = events st @ [snd (snd (react_body uni (toolExecutor agent) (history st) (llmClient agent (calls st @ [react_request agent q st]))))]\<rparr>)"
  by (simp add: react_pass_def Let_def split: prod.splits)

lemma react_pass_body:
  assumes "react_body uni (toolExecutor agent) (history st) (llmClient agent (calls st @ [react_request agent q st])) = (ctl, h', ev)"
  shows "react_pass uni agent q st =
    (ctl, \<lparr>history = h', calls = calls st @ [react_request agent q st], events = events st @ [ev]\<rparr>)"
  using assms by (simp add: react_pass_eq)

lemma react_pass_shape:
  assumes "react_pass uni agent q st = (ctl, st')"
  shows "\<exists>ev. calls st' = calls st @ [react_request agent q st] \<and> events st' = events st @ [ev]
           \<and> (ctl = Break \<or> ctl = Continue \<or> (\<exists>a. ctl = Return a) \<and> is_finish ev
                \<or> ctl = Raise AttributeError \<and> is_finish ev)"
proof -
  obtain c h' ev where b: "react_body uni (toolExecutor agent) (history st) (llmClient agent (calls st @ [react_request agent q st])) = (c, h', ev)"
    by (metis prod_cases3)
  from react_body_cases [OF b] assms show ?thesis
    by (auto simp: react_pass_body [OF b])
qed

lemma react_loop_stop:
  "\<not> current_step < maxSteps agent \<Longrightarrow> react_loop uni agent q current_step st = (Inr None, st)"
  by (simp add: react_loop.simps)

lemma react_loop_break:
  "current_step < maxSteps agent \<Longrightarrow> react_pass uni agent q st = (Break, st') \<Longrightarrow>
   react_loop uni agent q current_step st = (Inr None, st')"
  by (simp add: react_loop.simps)

lemma react_loop_return:
  "current_step < maxSteps agent \<Longrightarrow> react_pass uni agent q st = (Return a, st') \<Longrightarrow>
   react_loop uni agent q current_step st = (Inr (Some a), st')"
  by (simp add: react_loop.simps)

lemma react_loop_raise:
  "current_step < maxSteps agent \<Longrightarrow> react_pass uni agent q st = (Raise e, st') \<Longrightarrow>
   react_loop uni agent q current_step st = (Inl e, st')"
  by (simp add: react_loop.simps)

lemma react_loop_continue:
  "current_step < maxSteps agent \<Longrightarrow> react_pass uni agent q st = (Continue, st') \<Longrightarrow>
   react_loop uni agent q current_step st = react_loop uni agent q (current_step + 1) st'"
  by (simp add: react_loop.simps)

lemma react_pass_count:
  assumes "react_pass uni agent q st = (ctl, st')"
    and "length (history st) = 2 * tool_steps (events st)"
  shows "length (history st') = 2 * tool_steps (events st')"
proof -
  obtain c h' ev where b: "react_body uni (toolExecutor agent) (history st) (llmClient agent (calls st @ [react_request agent q st])) = (c, h', ev)"
    by (metis prod_cases3)
  with assms(1) have st': "st' = \<lparr>history = h', calls = calls st @ [react_request agent q st], events = events st @ [ev]\<rparr>"
    by (simp add: react_pass_eq)
  from react_body_cases [OF b] assms(2) show ?thesis
    by (auto simp: st' tool_steps_def)
qed

lemma react_loop_count:
  "length (history st) = 2 * tool_steps (events st) \<Longrightarrow>
   length (history (snd (react_loop uni agent q k st))) = 2 * tool_steps (events (snd (react_loop uni agent q k st)))"
proof (induction uni agent q k st rule: react_loop.induct)
  case (1 uni agent question current_step st)
  show ?case
  proof (cases "current_step < maxSteps agent")
    case False
    with "1.prems" show ?thesis by (simp add: react_loop_stop)
  next
    case True
    obtain ctl st' where p: "react_pass uni agent question st = (ctl, st')"
      by (cases "react_pass uni agent question st")
    have inv: "length (history st') = 2 * tool_steps (events st')"
      using react_pass_count [OF p "1.prems"] .
    show ?thesis
    proof (cases ctl)
      case Continue
      with True p "1.IH" inv show ?thesis
        by (simp add: react_loop_continue)
    qed (use True p inv in \<open>simp_all add: react_loop_break react_loop_return react_loop_raise\<close>)
  qed
qed



lemma react_loop_budget:
  "length (events st) = length (calls st) \<Longrightarrow>
   length (calls (snd (react_loop uni agent q k st))) \<le> length (calls st) + nat (maxSteps agent - k)
   \<and> length (events (snd (react_loop uni agent q k st))) = length (calls (snd (react_loop uni agent q k st)))"
proof (induction uni agent q k st rule: react_loop.induct)
  case (1 uni agent question current_step st)
  show ?case
  proof (cases "current_step < maxSteps agent")
    case False
    with "1.prems" show ?thesis by (simp add: react_loop_stop)
  next
    case True
    obtain ctl st' where p: "react_pass uni agent question st = (ctl, st')"
      by (cases "react_pass uni agent question st")
    from react_pass_shape [OF p] obtain ev where
      c: "calls st' = calls st @ [react_request agent question st]" and e: "events st' = events st @ [ev]"
      by blast
    from c e "1.prems" have eq: "length (events st') = length (calls st')" by simp
    show ?thesis
    proof (cases ctl)
      case Continue
      from True have n: "nat (maxSteps agent - current_step) = Suc (nat (maxSteps agent - (current_step + 1)))"
        by arith
      from "1.IH" [OF True p [symmetric] Continue eq] c
      show ?thesis by (simp add: react_loop_continue [OF True p [unfolded Continue]] n)
    qed (use True p c eq in \<open>simp_all add: react_loop_break react_loop_return react_loop_raise\<close>)
  qed
qed

lemma react_loop_no_finish:
  "\<forall>e\<in>set (events (snd (react_loop uni agent q k st))). \<not> is_finish e \<Longrightarrow>
   fst (react_loop uni agent q k st) = Inr None"
proof (induction uni agent q k st rule: react_loop.induct)
  case (1 uni agent question current_step st)
  show ?case
  proof (cases "current_step < maxSteps agent")
    case False
    then show ?thesis by (simp add: react_loop_stop)
  next
    case True
    obtain ctl st' where p: "react_pass uni agent question st = (ctl, st')"
      by (cases "react_pass uni agent question st")
    from react_pass_shape [OF p] obtain ev where
      e: "events st' = events st @ [ev]"
      and k: "ctl = Break \<or> ctl = Continue \<or> (\<exists>a. ctl = Return a) \<and> is_finish ev \<or> ctl = Raise AttributeError \<and> is_finish ev"
      by blast
    show ?thesis
    proof (cases ctl)
      case Break
      with True p show ?thesis by (simp add: react_loop_break)
    next
      case Continue
      with True p "1.IH" "1.prems" show ?thesis by (simp add: react_loop_continue)
    next
      case (Return a)
      with k have "is_finish ev" by auto
      moreover from Return True p e have "ev \<in> set (events (snd (react_loop uni agent question current_step st)))"
        by (simp add: react_loop_return)
      ultimately show ?thesis using "1.prems" by blast
    next
      case (Raise x)
      with k have "is_finish ev" by auto
      moreover from Raise True p e have "ev \<in> set (events (snd (react_loop uni agent question current_step st)))"
        by (simp add: react_loop_raise)
      ultimately show ?thesis using "1.prems" by blast
    qed
  qed
qed

lemma react_request_client:
  "react_request (agent\<lparr>llmClient := c\<rparr>) q st = react_request agent q st"
  by (simp add: react_request_def)

lemma react_body_empty_as_failure:
  "react_body uni tools h (empty_as_failure client requests) = react_body uni tools h (client requests)"
  by (simp add: empty_as_failure_def react_body_failure falsy_def)

lemma react_pass_empty_as_failure:
  "react_pass uni (agent\<lparr>llmClient := empty_as_failure (llmClient agent)\<rparr>) q st = react_pass uni agent q st"
  by (simp add: react_pass_eq react_request_client react_body_empty_as_failure)

lemma react_loop_empty_as_failure:
  "react_loop uni (agent\<lparr>llmClient := empty_as_failure (llmClient agent)\<rparr>) q k st = react_loop uni agent q k st"
proof (induction uni agent q k st rule: react_loop.induct)
  case (1 uni agent question current_step st)
  let ?agent' = "agent\<lparr>llmClient := empty_as_failure (llmClient agent)\<rparr>"
  show ?case
  proof (cases "current_step < maxSteps agent")
    case False
    then show ?thesis by (simp add: react_loop_stop)
  next
    case True
    then have True': "current_step < maxSteps ?agent'" by simp
    obtain ctl st' where p: "react_pass uni agent question st = (ctl, st')"
      by (cases "react_pass uni agent question st")
    then have p': "react_pass uni ?agent' question st = (ctl, st')"
      by (simp add: react_pass_empty_as_failure)
    show ?thesis
    proof (cases ctl)
      case Break
      with react_loop_break [OF True] react_loop_break [OF True'] p p' show ?thesis by simp
    next
      case Continue
      with react_loop_continue [OF True] react_loop_continue [OF True'] p p' "1.IH" [OF True p [symmetric]]
      show ?thesis by simp
    next
      case (Return a)
      with react_loop_return [OF True] react_loop_return [OF True'] p p' show ?thesis by simp
    next
      case (Raise x)
      with react_loop_raise [OF True] react_loop_raise [OF True'] p p' show ?thesis by simp
    qed
  qed
qed

lemma body_calc:
  "react_body ascii_only example_tools h (Some (lit ''Action: calc[1+1]'')) =
     (Continue, h, ToolMissing (lit ''calc[1+1]'') (lit ''calc'') (tool_not_found (lit ''calc'')))"
  by (simp add: react_body_def text_defs example_tools_def ascii_only_def Let_def)

lemma body_finish_bare:
  "react_body ascii_only example_tools h (Some (lit ''Action: Finish'')) =
     (Raise AttributeError, h, FinishMalformed)"
  by (simp add: react_body_def text_defs example_tools_def ascii_only_def Let_def)

lemma body_search:
  "react_body ascii_only example_tools h (Some (lit ''Action: serp_search[x]'')) =
     (Continue, h @ [lit ''Action: '' @ lit ''serp_search[x]'', lit ''Observation: '' @ lit ''results for x''],
      ToolInvoked (lit ''serp_search[x]'') (lit ''serp_search'') (lit ''results for x''))"
  by (simp add: react_body_def text_defs example_tools_def ascii_only_def Let_def)

section \<open>Properties of the ReAct agent\<close>

text \<open>
  Claim C1. A pass that runs a tool appends exactly two entries to the history, the
  \<^verbatim>\<open>Action: \<close> line and then the \<^verbatim>\<open>Observation: \<close> line; every other pass (a final answer, a
  response or action that does not parse, a tool that is not registered) leaves the
  history as it was. Hence the history of a run is twice as long as the number of passes
  that ran a tool.
\<close>

theorem react_history_growth:
  "history (snd (react_pass uni agent question st)) =
     (case last (events (snd (react_pass uni agent question st))) of
        ToolInvoked action name observation \<Rightarrow>
          history st @ [lit ''Action: '' @ action, lit ''Observation: '' @ observation]
      | _ \<Rightarrow> history st)
   \<and> length (history (snd (react_run uni agent question))) =
       2 * tool_steps (events (snd (react_run uni agent question)))"
proof
  obtain c h' ev where b: "react_body uni (toolExecutor agent) (history st) (llmClient agent (calls st @ [react_request agent question st])) = (c, h', ev)"
    by (metis prod_cases3)
  from react_body_cases [OF b] show "history (snd (react_pass uni agent question st)) =
     (case last (events (snd (react_pass uni agent question st))) of
        ToolInvoked action name observation \<Rightarrow>
          history st @ [lit ''Action: '' @ action, lit ''Observation: '' @ observation]
      | _ \<Rightarrow> history st)"
    by (auto simp: react_pass_body [OF b] split: event.splits)
next
  show "length (history (snd (react_run uni agent question))) =
       2 * tool_steps (events (snd (react_run uni agent question)))"
    unfolding react_run_def by (rule react_loop_count) (simp add: tool_steps_def)
qed

text \<open>
  Claim C2, evaluated. The model asks for the tool \<^verbatim>\<open>calc\<close>, which is not registered. The
  body builds the observation text for the missing tool, but the two appends stand in the
  branch of a tool that was found: the pass uses a step of the budget and the history
  stays empty.
\<close>

theorem react_tool_missing_history:
  "history (snd (react_run ascii_only (example_agent [Some (lit ''Action: calc[1+1]'')] 1) (lit ''q''))) = []
   \<and> events (snd (react_run ascii_only (example_agent [Some (lit ''Action: calc[1+1]'')] 1) (lit ''q'')))
      = [ToolMissing (lit ''calc[1+1]'') (lit ''calc'') (tool_not_found (lit ''calc''))]"
proof -
  let ?agent = "example_agent [Some (lit ''Action: calc[1+1]'')] 1"
  let ?st = "\<lparr>history = [], calls = [], events = []\<rparr>"
  have r: "llmClient ?agent (calls ?st @ [react_request ?agent (lit ''q'') ?st]) = Some (lit ''Action: calc[1+1]'')"
    by (simp add: example_agent_def scripted_def)
  have t: "toolExecutor ?agent = example_tools" by (simp add: example_agent_def)
  have b: "react_body ascii_only (toolExecutor ?agent) (history ?st)
      (llmClient ?agent (calls ?st @ [react_request ?agent (lit ''q'') ?st]))
      = (Continue, [], ToolMissing (lit ''calc[1+1]'') (lit ''calc'') (tool_not_found (lit ''calc'')))"
    unfolding r t by (simp add: body_calc)
  have m: "(0::int) < maxSteps ?agent" "\<not> (1 < maxSteps ?agent)" by (simp_all add: example_agent_def)
  show ?thesis
    unfolding react_run_def react_loop_continue [OF m(1) react_pass_body [OF b]]
    by (simp add: react_loop_stop [OF m(2)])
qed

text \<open>
  Claim C3. When the parsed action of a response is \<^verbatim>\<open>Finish[X]\<close>, the run returns at once with
  exactly \<open>X\<close>: the history is left as it was, no tool is looked up or run (the pass is
  recorded as a final answer), and nothing is added to or stripped from \<open>X\<close>, also when
  \<open>X\<close> or the text before the action looks like a tool call.
\<close>

theorem react_finish_returns_payload:
  assumes "current_step < maxSteps agent"
    and "llmClient agent (calls st @ [react_request agent question st]) = Some text"
    and "snd (parse_output text) = Some (lit ''Finish['' @ X @ lit '']'')"
  shows "react_loop uni agent question current_step st =
     (Inr (Some X),
      \<lparr>history = history st,
       calls = calls st @ [react_request agent question st],
       events = events st @ [Finished X]\<rparr>)"
proof -
  have "react_body uni (toolExecutor agent) (history st)
          (llmClient agent (calls st @ [react_request agent question st])) =
        (Return X, history st, Finished X)"
    using react_body_finish [OF assms(3)] assms(2) by simp
  then have "react_pass uni agent question st =
      (Return X, \<lparr>history = history st, calls = calls st @ [react_request agent question st],
         events = events st @ [Finished X]\<rparr>)"
    by (rule react_pass_body)
  with assms(1) show ?thesis by (rule react_loop_return)
qed

text \<open>
  An instance for C3: the thought mentions a tool call and the payload of \<^verbatim>\<open>Finish\<close> holds
  brackets of its own.
\<close>

theorem react_finish_returns_payload_witness:
  "(0::int) < maxSteps (example_agent [Some finish_reply] 5)
   \<and> llmClient (example_agent [Some finish_reply] 5)
        (calls start_state @ [react_request (example_agent [Some finish_reply] 5) (lit ''q'') start_state])
       = Some finish_reply
   \<and> snd (parse_output finish_reply)
       = Some (lit ''Finish['' @ lit ''search[Paris] says Paris'' @ lit '']'')
   \<and> react_loop ascii_only (example_agent [Some finish_reply] 5) (lit ''q'') 0 start_state
       = (Inr (Some (lit ''search[Paris] says Paris'')),
          \<lparr>history = history start_state,
           calls = calls start_state @ [react_request (example_agent [Some finish_reply] 5) (lit ''q'') start_state],
           events = events start_state @ [Finished (lit ''search[Paris] says Paris'')]\<rparr>)"
proof -
  let ?agent = "example_agent [Some finish_reply] 5"
  have m: "(0::int) < maxSteps ?agent" by (simp add: example_agent_def)
  have r: "llmClient ?agent (calls start_state @ [react_request ?agent (lit ''q'') start_state]) = Some finish_reply"
    by (simp add: example_agent_def scripted_def start_state_def)
  have p: "snd (parse_output finish_reply)
       = Some (lit ''Finish['' @ lit ''search[Paris] says Paris'' @ lit '']'')"
    by (simp add: finish_reply_def text_defs)
  from m r p react_finish_returns_payload [OF m r p, of ascii_only] show ?thesis by simp
qed

text \<open>
  Claim C4, evaluated. The action \<^verbatim>\<open>Finish\<close> without a bracketed payload passes the
  \<^verbatim>\<open>startswith\<close> test, the pattern of the final answer does not match, and reading the group
  of the missing match raises \<^verbatim>\<open>AttributeError\<close>, which leaves \<^verbatim>\<open>run\<close>.
\<close>

theorem react_finish_malformed_raises:
  "fst (react_run ascii_only (example_agent [Some (lit ''Action: Finish'')] 5) (lit ''q''))
     = Inl AttributeError"
proof -
  let ?agent = "example_agent [Some (lit ''Action: Finish'')] 5"
  let ?st = "\<lparr>history = [], calls = [], events = []\<rparr>"
  have r: "llmClient ?agent (calls ?st @ [react_request ?agent (lit ''q'') ?st]) = Some (lit ''Action: Finish'')"
    by (simp add: example_agent_def scripted_def)
  have t: "toolExecutor ?agent = example_tools" by (simp add: example_agent_def)
  have b: "react_body ascii_only (toolExecutor ?agent) (history ?st)
      (llmClient ?agent (calls ?st @ [react_request ?agent (lit ''q'') ?st]))
      = (Raise AttributeError, [], FinishMalformed)"
    unfolding r t by (simp add: body_finish_bare)
  have m: "(0::int) < maxSteps ?agent" by (simp add: example_agent_def)
  show ?thesis
    unfolding react_run_def react_loop_raise [OF m react_pass_body [OF b]] by simp
qed



text \<open>
  Claim C8, as the code has it. Only the first match of each pattern is used: what follows
  the line of the first \<^verbatim>\<open>Thought: \<close> or \<^verbatim>\<open>Action: \<close> match, a second such line included, does
  not change the result. The bracketed payload is greedy: it runs from the \<^verbatim>\<open>[\<close> after the
  tool name to the last \<^verbatim>\<open>]\<close> of the action text, so a payload that holds a \<^verbatim>\<open>]\<close> is
  accepted and returned whole.
\<close>

theorem parse_first_match_greedy_payload:
  "(find_after (lit ''Thought: '') head \<noteq> None
      \<longrightarrow> fst (parse_output (head @ 10 # rest)) = fst (parse_output head))
   \<and> (find_after (lit ''Action: '') head \<noteq> None
      \<longrightarrow> snd (parse_output (head @ 10 # rest)) = snd (parse_output head))
   \<and> (name \<noteq> [] \<and> (\<forall>c\<in>set name. is_word uni c) \<and> 10 \<notin> set payload
      \<longrightarrow> parse_action uni (name @ [91] @ payload @ [93]) = (Some name, Some payload))"
  using re_search_line_append [of "lit ''Thought: ''" head rest]
    re_search_line_append [of "lit ''Action: ''" head rest]
    parse_action_greedy [of name uni payload]
  by (simp add: parse_output_def Let_def)

text \<open>
  Claim C8 as stated says that an action whose payload holds a \<^verbatim>\<open>]\<close> is not decomposed.
  The action \<^verbatim>\<open>search[a]b]\<close> is decomposed, into the tool \<^verbatim>\<open>search\<close> and the input
  \<^verbatim>\<open>a]b\<close>.
\<close>

theorem parse_action_bracket_counterexample:
  "parse_action ascii_only (lit ''search[a]b]'') = (Some (lit ''search''), Some (lit ''a]b''))"
  by (simp add: text_defs ascii_only_def)

text \<open>
  An instance for C8: a response with a second thought and a second action, and the
  action of the counterexample.
\<close>

theorem parse_first_match_greedy_payload_witness:
  "find_after (lit ''Thought: '') two_actions_head \<noteq> None
   \<and> find_after (lit ''Action: '') two_actions_head \<noteq> None
   \<and> parse_output (two_actions_head @ 10 # two_actions_rest)
       = (Some (lit ''look it up''), Some (lit ''serp_search[x]''))
   \<and> lit ''search'' \<noteq> [] \<and> 10 \<notin> set (lit ''a]b'')
   \<and> parse_action ascii_only (lit ''search'' @ [91] @ lit ''a]b'' @ [93])
       = (Some (lit ''search''), Some (lit ''a]b''))"
proof -
  have h: "find_after (lit ''Thought: '') two_actions_head \<noteq> None"
    "find_after (lit ''Action: '') two_actions_head \<noteq> None"
    by (simp_all add: two_actions_head_def lit_def)
  have p: "parse_output two_actions_head = (Some (lit ''look it up''), Some (lit ''serp_search[x]''))"
    by (simp add: two_actions_head_def text_defs)
  have w: "lit ''search'' \<noteq> []" "\<forall>c\<in>set (lit ''search''). is_word ascii_only c" "10 \<notin> set (lit ''a]b'')"
    by (simp_all add: lit_def is_word_def ascii_alnum_def)
  from h p w parse_first_match_greedy_payload
    [where head = two_actions_head and rest = two_actions_rest and name = "lit ''search''"
       and uni = ascii_only and payload = "lit ''a]b''"]
  show ?thesis by (simp add: prod_eq_iff)
qed

text \<open>
  Claim C9. For every question and every model, a run makes at most \<open>maxSteps\<close> passes
  through the loop, one model call per pass, and when no pass had an action beginning with
  \<^verbatim>\<open>Finish\<close> the run returns \<^verbatim>\<open>None\<close>. (\<open>react_loop\<close> is a total function: every run
  returns.)
\<close>

theorem react_step_budget:
  "length (calls (snd (react_run uni agent question))) \<le> nat (maxSteps agent)
   \<and> length (events (snd (react_run uni agent question))) =
       length (calls (snd (react_run uni agent question)))
   \<and> ((\<forall>e\<in>set (events (snd (react_run uni agent question))). \<not> is_finish e)
        \<longrightarrow> fst (react_run uni agent question) = Inr None)"
  using react_loop_budget [of "\<lparr>history = [], calls = [], events = []\<rparr>" uni agent question 0]
    react_loop_no_finish [of uni agent question 0 "\<lparr>history = [], calls = [], events = []\<rparr>"]
  by (simp add: react_run_def)

text \<open>
  An instance for C9: a budget of one step and a model that would finish on its second
  call.
\<close>

theorem react_step_budget_witness:
  "events (snd (react_run ascii_only
      (example_agent [Some (lit ''Action: serp_search[x]''), Some (lit ''Action: Finish[x]'')] 1) (lit ''q'')))
     = [ToolInvoked (lit ''serp_search[x]'') (lit ''serp_search'') (lit ''results for x'')]
   \<and> length (calls (snd (react_run ascii_only
      (example_agent [Some (lit ''Action: serp_search[x]''), Some (lit ''Action: Finish[x]'')] 1) (lit ''q''))))
     \<le> nat 1
   \<and> fst (react_run ascii_only
      (example_agent [Some (lit ''Action: serp_search[x]''), Some (lit ''Action: Finish[x]'')] 1) (lit ''q''))
     = Inr None"
proof -
  let ?agent = "example_agent [Some (lit ''Action: serp_search[x]''), Some (lit ''Action: Finish[x]'')] 1"
  let ?st = "\<lparr>history = [], calls = [], events = []\<rparr>"
  have r: "llmClient ?agent (calls ?st @ [react_request ?agent (lit ''q'') ?st]) = Some (lit ''Action: serp_search[x]'')"
    by (simp add: example_agent_def scripted_def)
  have t: "toolExecutor ?agent = example_tools" by (simp add: example_agent_def)
  have b: "react_body ascii_only (toolExecutor ?agent) (history ?st)
      (llmClient ?agent (calls ?st @ [react_request ?agent (lit ''q'') ?st]))
      = (Continue, [] @ [lit ''Action: '' @ lit ''serp_search[x]'', lit ''Observation: '' @ lit ''results for x''],
      ToolInvoked (lit ''serp_search[x]'') (lit ''serp_search'') (lit ''results for x''))"
    unfolding r t by (simp add: body_search)
  have m: "(0::int) < maxSteps ?agent" "\<not> (1 < maxSteps ?agent)" "maxSteps ?agent = 1"
    by (simp_all add: example_agent_def)
  have e: "events (snd (react_run ascii_only ?agent (lit ''q'')))
     = [ToolInvoked (lit ''serp_search[x]'') (lit ''serp_search'') (lit ''results for x'')]"
    unfolding react_run_def react_loop_continue [OF m(1) react_pass_body [OF b]]
    by (simp add: react_loop_stop [OF m(2)])
  from e m(3) react_step_budget [of ascii_only ?agent "lit ''q''"] show ?thesis by simp
qed

text \<open>
  Claim C10. An empty response text is treated exactly as a failed model call: the body
  takes the same branch for both, the run ends at that pass without an answer and
  without a change of the history, and a run does not change when every empty response
  of the model is replaced by a failure.
\<close>

theorem react_empty_response_is_failure:
  "react_body uni tools h (Some []) = react_body uni tools h None
   \<and> (current_step < maxSteps agent
        \<and> llmClient agent (calls st @ [react_request agent question st]) = Some []
      \<longrightarrow> fst (react_loop uni agent question current_step st) = Inr None
          \<and> history (snd (react_loop uni agent question current_step st)) = history st)
   \<and> react_run uni (agent\<lparr>llmClient := empty_as_failure (llmClient agent)\<rparr>) question =
       react_run uni agent question"
proof (intro conjI impI)
  show "react_body uni tools h (Some []) = react_body uni tools h None"
    by (simp add: react_body_failure falsy_def)
next
  assume a: "current_step < maxSteps agent
        \<and> llmClient agent (calls st @ [react_request agent question st]) = Some []"
  then have b: "react_body uni (toolExecutor agent) (history st)
      (llmClient agent (calls st @ [react_request agent question st])) = (Break, history st, NoResponse)"
    by (simp add: react_body_failure falsy_def)
  from a react_loop_break [OF _ react_pass_body [OF b]]
  show "fst (react_loop uni agent question current_step st) = Inr None" by simp
  from a react_loop_break [OF _ react_pass_body [OF b]]
  show "history (snd (react_loop uni agent question current_step st)) = history st" by simp
next
  show "react_run uni (agent\<lparr>llmClient := empty_as_failure (llmClient agent)\<rparr>) question =
       react_run uni agent question"
    by (simp add: react_run_def react_loop_empty_as_failure)
qed

text \<open>
  An instance for C10: the model answers the first call with the empty text.
\<close>

theorem react_empty_response_is_failure_witness:
  "(0::int) < maxSteps (example_agent [Some []] 5)
   \<and> llmClient (example_agent [Some []] 5)
        (calls start_state @ [react_request (example_agent [Some []] 5) (lit ''q'') start_state]) = Some []
   \<and> fst (react_loop ascii_only (example_agent [Some []] 5) (lit ''q'') 0 start_state) = Inr None
   \<and> history (snd (react_loop ascii_only (example_agent [Some []] 5) (lit ''q'') 0 start_state)) = history start_state"
proof -
  let ?agent = "example_agent [Some []] 5"
  have m: "(0::int) < maxSteps ?agent" by (simp add: example_agent_def)
  have r: "llmClient ?agent (calls start_state @ [react_request ?agent (lit ''q'') start_state]) = Some []"
    by (simp add: example_agent_def scripted_def start_state_def)
  from m r react_empty_response_is_failure
    [where current_step = 0 and agent = ?agent and st = start_state and question = "lit ''q''" and uni = ascii_only,
      THEN conjunct2, THEN conjunct1]
  show ?thesis by blast
qed

section \<open>Lemmas about the Plan-and-Solve agent\<close>

lemma py_split_not_found:
  "find_after sep s = None \<Longrightarrow> py_split sep s = [s]"
  by (induction s) (auto split: if_splits)

lemma py_split_nonempty: "py_split sep s \<noteq> []"
  by (induction sep s rule: py_split.induct) (auto split: list.splits)

lemma py_split_append:
  assumes "a \<notin> set body"
  shows "py_split (a # sep) (body @ rest) =
     (body @ hd (py_split (a # sep) rest)) # tl (py_split (a # sep) rest)"
  using assms
proof (induction body)
  case Nil
  show ?case using py_split_nonempty [of "a # sep" rest] by simp
next
  case (Cons c cs)
  then have "\<not> prefix (a # sep) ((c # cs) @ rest)" by auto
  with Cons show ?case by simp
qed

lemma hd_py_split_skip:
  "\<not> prefix sep (c # cs) \<Longrightarrow> hd (py_split sep (c # cs)) = c # hd (py_split sep cs)"
  using py_split_nonempty [of sep cs] by (cases "py_split sep cs") auto

lemma getitem_0: "xs \<noteq> [] \<Longrightarrow> getitem xs 0 = Inr (hd xs)"
  by (cases xs) (auto simp: getitem_def)

lemma getitem_1: "ys \<noteq> [] \<Longrightarrow> getitem (x # ys) (Suc 0) = Inr (hd ys)"
  by (cases ys) (auto simp: getitem_def)

lemma hd_split_fence_tail:
  assumes "96 \<notin> set post"
  shows "hd (py_split FENCE (hd (py_split FENCE_PYTHON (FENCE @ post)))) = []"
proof (cases "prefix FENCE_PYTHON (FENCE @ post)")
  case True
  then have "hd (py_split FENCE_PYTHON (FENCE @ post)) = []"
    by (simp add: FENCE_def)
  then show ?thesis by simp
next
  case False
  from assms have n1: "\<not> prefix FENCE_PYTHON (96 # 96 # post)" and n2: "\<not> prefix FENCE_PYTHON (96 # post)"
    by (auto simp: FENCE_PYTHON_def prefix_def)
  from False have n0: "\<not> prefix FENCE_PYTHON (96 # 96 # 96 # post)"
    by (simp add: FENCE_def)
  have "hd (py_split FENCE_PYTHON (FENCE @ post)) = FENCE @ hd (py_split FENCE_PYTHON post)"
    using hd_py_split_skip [OF n0] hd_py_split_skip [OF n1] hd_py_split_skip [OF n2]
    by (simp add: FENCE_def)
  then show ?thesis by (simp add: FENCE_def)
qed

lemma plan_str_fenced:
  assumes "96 \<notin> set pre" and "96 \<notin> set body" and "96 \<notin> set post"
  shows "plan_str (pre @ FENCE_PYTHON @ body @ FENCE @ post) = Inr (strip body)"
proof -
  let ?R = "body @ FENCE @ post"
  have s1: "py_split FENCE_PYTHON (pre @ FENCE_PYTHON @ ?R) = pre # py_split FENCE_PYTHON ?R"
    using py_split_append [OF assms(1), of "tl FENCE_PYTHON" "FENCE_PYTHON @ ?R"]
    by (simp add: FENCE_PYTHON_def)
  have s2: "hd (py_split FENCE_PYTHON ?R) = body @ hd (py_split FENCE_PYTHON (FENCE @ post))"
    using py_split_append [OF assms(2), of "tl FENCE_PYTHON" "FENCE @ post"]
    by (simp add: FENCE_PYTHON_def)
  have s3: "hd (py_split FENCE (body @ hd (py_split FENCE_PYTHON (FENCE @ post)))) = body"
    using py_split_append [OF assms(2), of "tl FENCE" "hd (py_split FENCE_PYTHON (FENCE @ post))"]
      hd_split_fence_tail [OF assms(3)]
    by (simp add: FENCE_def)
  show ?thesis
    by (simp add: plan_str_def s1 getitem_1 getitem_0 py_split_nonempty s2 s3)
qed

lemma plan_str_no_fence:
  "find_after FENCE_PYTHON response_text = None \<Longrightarrow> plan_str response_text = Inl IndexError"
  by (simp add: plan_str_def py_split_not_found getitem_def)

lemma py_split_absent:
  "a \<notin> set s \<Longrightarrow> py_split (a # sep) s = [s]"
  using py_split_append [of a s sep "[]"] by simp

lemma plan_str_unclosed:
  assumes "96 \<notin> set pre" and "96 \<notin> set body"
  shows "plan_str (pre @ FENCE_PYTHON @ body) = Inr (strip body)"
proof -
  have s1: "py_split FENCE_PYTHON (pre @ FENCE_PYTHON @ body) = pre # py_split FENCE_PYTHON body"
    using py_split_append [OF assms(1), of "tl FENCE_PYTHON" "FENCE_PYTHON @ body"]
    by (simp add: FENCE_PYTHON_def)
  have s2: "py_split FENCE_PYTHON body = [body]"
    using py_split_absent [OF assms(2), of "tl FENCE_PYTHON"] by (simp add: FENCE_PYTHON_def)
  have s3: "py_split FENCE body = [body]"
    using py_split_absent [OF assms(2), of "tl FENCE"] by (simp add: FENCE_def)
  show ?thesis
    by (simp add: plan_str_def s1 s2 s3 getitem_def)
qed

lemma plan_str_unclosed_example:
  "plan_str unclosed_plan_text = Inr [91, 39, 97, 39, 44, 39, 98, 39, 93]"
proof -
  have "plan_str unclosed_plan_text = Inr (strip ([10] @ [91, 39, 97, 39, 44, 39, 98, 39, 93]))"
    unfolding unclosed_plan_text_def
    using plan_str_unclosed [of "[]" "[10] @ [91, 39, 97, 39, 44, 39, 98, 39, 93]"]
    by simp
  then show ?thesis by (simp add: strip_def is_space_def)
qed

lemma transcript_Suc:
  "transcript repr c L plan m (Suc k) =
     transcript repr c L plan m k @ step_block repr k (plan ! k) (step_result c L (m + k))"
  by (simp add: transcript_def)

lemma execute_loop_calls:
  "take (length (exec_calls st)) (exec_calls (execute_loop repr c q plan i steps st)) = exec_calls st
   \<and> length (exec_calls (execute_loop repr c q plan i steps st)) = length (exec_calls st) + length steps"
proof (induction steps arbitrary: i st)
  case Nil
  show ?case by simp
next
  case (Cons s rest)
  let ?req = "executor_request repr q plan (exec_history st) s"
  let ?resp = "or_empty (c (exec_calls st @ [?req]))"
  let ?st1 = "\<lparr>exec_history = exec_history st @ step_block repr i s ?resp,
               exec_response = Some ?resp, exec_calls = exec_calls st @ [?req]\<rparr>"
  have u: "execute_loop repr c q plan i (s # rest) st = execute_loop repr c q plan (i + 1) rest ?st1"
    by (simp add: Let_def)
  from Cons.IH [where i = "i + 1" and st = ?st1]
  have a: "take (Suc (length (exec_calls st))) (exec_calls (execute_loop repr c q plan (i + 1) rest ?st1))
             = exec_calls st @ [?req]"
    and b: "length (exec_calls (execute_loop repr c q plan (i + 1) rest ?st1)) = Suc (length (exec_calls st)) + length rest"
    by simp_all
  from a have "take (length (exec_calls st)) (take (Suc (length (exec_calls st))) (exec_calls (execute_loop repr c q plan (i + 1) rest ?st1)))
      = exec_calls st" by simp
  then have "take (length (exec_calls st)) (exec_calls (execute_loop repr c q plan (i + 1) rest ?st1)) = exec_calls st"
    by (simp add: min_def)
  with b show ?case unfolding u by simp
qed

lemma execute_loop_log:
  assumes "L = exec_calls (execute_loop repr c q plan i steps st)"
    and "length (exec_calls st) = m + i"
    and "exec_history st = transcript repr c L plan m i"
    and "steps = drop i plan"
  shows "(\<forall>k<length steps. L ! (m + i + k) =
            executor_request repr q plan (transcript repr c L plan m (i + k)) (plan ! (i + k)))
       \<and> (steps \<noteq> [] \<longrightarrow> exec_response (execute_loop repr c q plan i steps st)
              = Some (step_result c L (m + i + length steps - 1)))"
  using assms
proof (induction steps arbitrary: i st)
  case Nil
  show ?case by simp
next
  case (Cons s rest)
  let ?req = "executor_request repr q plan (exec_history st) s"
  let ?resp = "or_empty (c (exec_calls st @ [?req]))"
  let ?st1 = "\<lparr>exec_history = exec_history st @ step_block repr i s ?resp,
               exec_response = Some ?resp, exec_calls = exec_calls st @ [?req]\<rparr>"
  have u: "execute_loop repr c q plan i (s # rest) st = execute_loop repr c q plan (i + 1) rest ?st1"
    by (simp add: Let_def)
  from Cons.prems(4) have i: "i < length plan"
    by (metis drop_all list.simps(3) not_le)
  from Cons.prems(4) i have s: "s = plan ! i" and rest: "rest = drop (i + 1) plan"
    by (simp_all add: Cons_nth_drop_Suc [symmetric])
  have L: "L = exec_calls (execute_loop repr c q plan (i + 1) rest ?st1)"
    using Cons.prems(1) u by simp
  from execute_loop_calls [where st = ?st1 and repr = repr and c = c and q = q and plan = plan and i = "i + 1" and steps = rest] L Cons.prems(2)
  have tk: "take (Suc (m + i)) L = exec_calls st @ [?req]" and len: "length L = Suc (m + i) + length rest"
    by simp_all
  from tk have at: "L ! (m + i) = ?req"
    by (metis Cons.prems(2) lessI nth_append_length nth_take)
  have res: "step_result c L (m + i) = ?resp"
    by (simp add: step_result_def tk)
  have h1: "exec_history ?st1 = transcript repr c L plan m (i + 1)"
    using Cons.prems(3) by (simp add: transcript_Suc res s)
  have l1: "length (exec_calls ?st1) = m + (i + 1)"
    using Cons.prems(2) by simp
  note IH = Cons.IH [OF L l1 h1 rest]
  have first: "L ! (m + i + 0) = executor_request repr q plan (transcript repr c L plan m (i + 0)) (plan ! (i + 0))"
    using at Cons.prems(3) s by simp
  have all: "\<forall>k<length (s # rest). L ! (m + i + k) =
            executor_request repr q plan (transcript repr c L plan m (i + k)) (plan ! (i + k))"
  proof (intro allI impI)
    fix k assume k: "k < length (s # rest)"
    show "L ! (m + i + k) = executor_request repr q plan (transcript repr c L plan m (i + k)) (plan ! (i + k))"
    proof (cases k)
      case 0
      with first show ?thesis by simp
    next
      case (Suc k')
      with k have "k' < length rest" by simp
      with IH have "L ! (m + (i + 1) + k') =
            executor_request repr q plan (transcript repr c L plan m (i + 1 + k')) (plan ! (i + 1 + k'))"
        by blast
      with Suc show ?thesis by (simp add: add.commute add.left_commute)
    qed
  qed
  have resp: "exec_response (execute_loop repr c q plan i (s # rest) st)
              = Some (step_result c L (m + i + length (s # rest) - 1))"
  proof (cases rest)
    case Nil
    then show ?thesis using res by (simp add: Let_def)
  next
    case (Cons r rs)
    with IH have "exec_response (execute_loop repr c q plan (i + 1) rest ?st1)
              = Some (step_result c L (m + (i + 1) + length rest - 1))" by simp
    then show ?thesis unfolding u by (simp add: add.commute add.left_commute)
  qed
  from all resp show ?case by blast
qed

lemma sublist_concat_map:
  assumes "j < k"
  shows "sublist (f j) (concat (map f [0..<k]))"
proof -
  from assms have "[0..<k] = [0..<j] @ j # [Suc j..<k]"
    by (metis add_0 le_add1 le_add_same_cancel1 less_imp_add_positive upt_add_eq_append upt_conv_Cons zero_le)
  then have "concat (map f [0..<k]) = concat (map f [0..<j]) @ f j @ concat (map f [Suc j..<k])"
    by simp
  then show ?thesis unfolding sublist_def by blast
qed

lemma sublist_step_block: "sublist r (step_block repr i step r)"
  unfolding sublist_def step_block_def
  by (metis append.assoc)

lemma sublist_trans: "sublist xs ys \<Longrightarrow> sublist ys zs \<Longrightarrow> sublist xs zs"
  by (rule sublist_order.order_trans)

lemma transcript_contains:
  assumes "j < k"
  shows "sublist (step_result c L (m + j)) (transcript repr c L plan m k)"
proof -
  have "sublist (step_block repr j (plan ! j) (step_result c L (m + j))) (transcript repr c L plan m k)"
    unfolding transcript_def
    by (rule sublist_concat_map [OF assms, of "\<lambda>j. step_block repr j (plan ! j) (step_result c L (m + j))"])
  with sublist_step_block show ?thesis by (rule sublist_trans)
qed

lemma transcript_nonempty: "0 < k \<Longrightarrow> transcript repr c L plan m k \<noteq> []"
  by (cases k) (simp_all add: transcript_Suc step_block_def)

lemma request_contains_history:
  assumes "h \<noteq> []"
  shows "sublist h (content (hd (executor_request repr q plan h step)))"
  using assms unfolding sublist_def executor_request_def Let_def
  by (simp del: append_assoc) (metis append.assoc)

lemma execute_eq:
  assumes "plan \<noteq> []"
  shows "snd (execute repr c requests q plan)
      = exec_calls (execute_loop repr c q plan 0 plan \<lparr>exec_history = [], exec_response = None, exec_calls = requests\<rparr>)
    \<and> (\<forall>r. exec_response (execute_loop repr c q plan 0 plan \<lparr>exec_history = [], exec_response = None, exec_calls = requests\<rparr>) = Some r
          \<longrightarrow> fst (execute repr c requests q plan) = Inr r)"
  by (simp add: execute_def Let_def split: option.splits)

section \<open>Properties of the Plan-and-Solve agent\<close>

text \<open>
  Claim C6, as the code has it. \<^verbatim>\<open>Planner.plan\<close> returns the empty list when the response
  has no opening fence \<^verbatim>\<open>```python\<close>, when the literal it extracts does not evaluate, and
  when its value is not a list; otherwise it returns the list the literal denotes. For a
  response whose only backquotes are those of the two fences the literal is the stripped
  text between them, and for the response \<^verbatim>\<open>```python\n['a','b']\n```\<close> the plan is the list
  of \<^verbatim>\<open>a\<close> and \<^verbatim>\<open>b\<close> (given that the literal evaluator reads \<^verbatim>\<open>['a','b']\<close> as that list). A
  closing fence that is missing is no failure: the literal is then the stripped text from
  the opening fence to the end of the response.
\<close>

theorem planner_plan_parse:
  "(find_after FENCE_PYTHON (or_empty (llm_client (requests @ [planner_request question]))) = None
      \<longrightarrow> fst (planner_plan literal_eval llm_client requests question) = [])
   \<and> (plan_str (or_empty (llm_client (requests @ [planner_request question]))) = Inr s
      \<longrightarrow> fst (planner_plan literal_eval llm_client requests question) =
            (case literal_eval s of Inr (PyList steps) \<Rightarrow> steps | _ \<Rightarrow> []))
   \<and> (96 \<notin> set pre \<and> 96 \<notin> set body \<and> 96 \<notin> set post
      \<longrightarrow> plan_str (pre @ FENCE_PYTHON @ body @ FENCE @ post) = Inr (strip body))
   \<and> (96 \<notin> set pre \<and> 96 \<notin> set body
      \<longrightarrow> plan_str (pre @ FENCE_PYTHON @ body) = Inr (strip body))
   \<and> (llm_client (requests @ [planner_request question]) = Some example_plan_text
        \<and> literal_eval [91, 39, 97, 39, 44, 39, 98, 39, 93] = Inr (PyList [PyStr (lit ''a''), PyStr (lit ''b'')])
      \<longrightarrow> fst (planner_plan literal_eval llm_client requests question) = [PyStr (lit ''a''), PyStr (lit ''b'')])"
proof (intro conjI impI)
  assume "find_after FENCE_PYTHON (or_empty (llm_client (requests @ [planner_request question]))) = None"
  then show "fst (planner_plan literal_eval llm_client requests question) = []"
    by (simp add: planner_plan_def parse_plan_def plan_str_no_fence Let_def)
next
  assume "plan_str (or_empty (llm_client (requests @ [planner_request question]))) = Inr s"
  then show "fst (planner_plan literal_eval llm_client requests question) =
            (case literal_eval s of Inr (PyList steps) \<Rightarrow> steps | _ \<Rightarrow> [])"
    by (simp add: planner_plan_def parse_plan_def Let_def split: sum.splits pyval.splits)
next
  assume "96 \<notin> set pre \<and> 96 \<notin> set body \<and> 96 \<notin> set post"
  then show "plan_str (pre @ FENCE_PYTHON @ body @ FENCE @ post) = Inr (strip body)"
    by (simp add: plan_str_fenced)
next
  assume "96 \<notin> set pre \<and> 96 \<notin> set body"
  then show "plan_str (pre @ FENCE_PYTHON @ body) = Inr (strip body)"
    by (simp add: plan_str_unclosed)
next
  assume a: "llm_client (requests @ [planner_request question]) = Some example_plan_text
        \<and> literal_eval [91, 39, 97, 39, 44, 39, 98, 39, 93] = Inr (PyList [PyStr (lit ''a''), PyStr (lit ''b'')])"
  have "plan_str example_plan_text = Inr (strip ([10] @ [91, 39, 97, 39, 44, 39, 98, 39, 93] @ [10]))"
    unfolding example_plan_text_def
    using plan_str_fenced [of "[]" "[10] @ [91, 39, 97, 39, 44, 39, 98, 39, 93] @ [10]" "[]"]
    by simp
  then have "plan_str example_plan_text = Inr [91, 39, 97, 39, 44, 39, 98, 39, 93]"
    by (simp add: strip_def is_space_def)
  with a show "fst (planner_plan literal_eval llm_client requests question) = [PyStr (lit ''a''), PyStr (lit ''b'')]"
    by (simp add: planner_plan_def parse_plan_def Let_def or_empty_def)
qed

text \<open>
  Claim C6 as stated says that a missing fence gives the empty list. For the response
  \<^verbatim>\<open>```python\n['a','b']\<close>, whose closing fence is missing, the planner returns the list of
  \<^verbatim>\<open>a\<close> and \<^verbatim>\<open>b\<close>.
\<close>

theorem planner_plan_unclosed_counterexample:
  "fst (planner_plan example_literal_eval (scripted [Some unclosed_plan_text]) [] (lit ''q''))
     = [PyStr (lit ''a''), PyStr (lit ''b'')]"
  by (simp add: planner_plan_def parse_plan_def Let_def scripted_def or_empty_def
      plan_str_unclosed_example example_literal_eval_def)

text \<open>
  Instances for C6: a response without a fence, a fenced number, a fenced literal that
  does not evaluate, a fenced block inside other text, the same block without its closing
  fence, and the response of the claim.
\<close>

theorem planner_plan_parse_witness:
  "find_after FENCE_PYTHON (or_empty (scripted [Some (lit ''no plan'')] ([] @ [planner_request (lit ''q'')]))) = None
   \<and> fst (planner_plan example_literal_eval (scripted [Some (lit ''no plan'')]) [] (lit ''q'')) = []
   \<and> plan_str (or_empty (scripted [Some (FENCE_PYTHON @ lit ''42'' @ FENCE)] ([] @ [planner_request (lit ''q'')])))
       = Inr (lit ''42'')
   \<and> fst (planner_plan example_literal_eval (scripted [Some (FENCE_PYTHON @ lit ''42'' @ FENCE)]) [] (lit ''q'')) = []
   \<and> plan_str (or_empty (scripted [Some (FENCE_PYTHON @ lit ''[1,'' @ FENCE)] ([] @ [planner_request (lit ''q'')])))
       = Inr (lit ''[1,'')
   \<and> fst (planner_plan example_literal_eval (scripted [Some (FENCE_PYTHON @ lit ''[1,'' @ FENCE)]) [] (lit ''q'')) = []
   \<and> 96 \<notin> set (lit ''The plan: '') \<and> 96 \<notin> set (lit '' [1] '') \<and> 96 \<notin> set (lit '' done'')
   \<and> plan_str (lit ''The plan: '' @ FENCE_PYTHON @ lit '' [1] '' @ FENCE @ lit '' done'') = Inr (lit ''[1]'')
   \<and> plan_str (lit ''The plan: '' @ FENCE_PYTHON @ lit '' [1] '') = Inr (lit ''[1]'')
   \<and> scripted [Some example_plan_text] ([] @ [planner_request (lit ''q'')]) = Some example_plan_text
   \<and> example_literal_eval [91, 39, 97, 39, 44, 39, 98, 39, 93]
        = Inr (PyList [PyStr (lit ''a''), PyStr (lit ''b'')])
   \<and> fst (planner_plan example_literal_eval (scripted [Some example_plan_text]) [] (lit ''q''))
        = [PyStr (lit ''a''), PyStr (lit ''b'')]"
proof -
  have a1: "find_after FENCE_PYTHON (or_empty (scripted [Some (lit ''no plan'')] ([] @ [planner_request (lit ''q'')]))) = None"
    by (simp add: scripted_def or_empty_def FENCE_PYTHON_def lit_def)
  note c1 = planner_plan_parse [where llm_client = "scripted [Some (lit ''no plan'')]" and requests = "[]"
      and question = "lit ''q''" and literal_eval = example_literal_eval, THEN conjunct1, rule_format, OF a1]
  have a2: "plan_str (or_empty (scripted [Some (FENCE_PYTHON @ lit ''42'' @ FENCE)] ([] @ [planner_request (lit ''q'')])))
       = Inr (lit ''42'')"
    using plan_str_fenced [of "[]" "lit ''42''" "[]"]
    by (simp add: scripted_def or_empty_def) (simp add: lit_def strip_def is_space_def)
  note c2 = planner_plan_parse [where llm_client = "scripted [Some (FENCE_PYTHON @ lit ''42'' @ FENCE)]" and requests = "[]"
      and question = "lit ''q''" and literal_eval = example_literal_eval and s = "lit ''42''",
      THEN conjunct2, THEN conjunct1, rule_format, OF a2]
  have a3: "plan_str (or_empty (scripted [Some (FENCE_PYTHON @ lit ''[1,'' @ FENCE)] ([] @ [planner_request (lit ''q'')])))
       = Inr (lit ''[1,'')"
    using plan_str_fenced [of "[]" "lit ''[1,''" "[]"]
    by (simp add: scripted_def or_empty_def) (simp add: lit_def strip_def is_space_def)
  note c3 = planner_plan_parse [where llm_client = "scripted [Some (FENCE_PYTHON @ lit ''[1,'' @ FENCE)]" and requests = "[]"
      and question = "lit ''q''" and literal_eval = example_literal_eval and s = "lit ''[1,''",
      THEN conjunct2, THEN conjunct1, rule_format, OF a3]
  have a4: "96 \<notin> set (lit ''The plan: '') \<and> 96 \<notin> set (lit '' [1] '') \<and> 96 \<notin> set (lit '' done'')"
    by (simp add: lit_def)
  note c4 = planner_plan_parse [where pre = "lit ''The plan: ''" and body = "lit '' [1] ''" and post = "lit '' done''",
      THEN conjunct2, THEN conjunct2, THEN conjunct1, rule_format, OF a4]
  from a4 have a4': "96 \<notin> set (lit ''The plan: '') \<and> 96 \<notin> set (lit '' [1] '')" by blast
  note c4' = planner_plan_parse [where pre = "lit ''The plan: ''" and body = "lit '' [1] ''",
      THEN conjunct2, THEN conjunct2, THEN conjunct2, THEN conjunct1, rule_format, OF a4']
  have s4: "strip (lit '' [1] '') = lit ''[1]''"
    by (simp add: lit_def strip_def is_space_def)
  have a5: "scripted [Some example_plan_text] ([] @ [planner_request (lit ''q'')]) = Some example_plan_text
     \<and> example_literal_eval [91, 39, 97, 39, 44, 39, 98, 39, 93]
        = Inr (PyList [PyStr (lit ''a''), PyStr (lit ''b'')])"
    by (simp add: scripted_def example_literal_eval_def)
  note c5 = planner_plan_parse [where llm_client = "scripted [Some example_plan_text]" and requests = "[]"
      and question = "lit ''q''" and literal_eval = example_literal_eval,
      THEN conjunct2, THEN conjunct2, THEN conjunct2, THEN conjunct2, rule_format, OF a5]
  have e2: "example_literal_eval (lit ''42'') = Inr (PyOther (lit ''42''))"
    and e3: "example_literal_eval (lit ''[1,'') = Inl SyntaxError"
    by (simp_all add: example_literal_eval_def lit_def)
  from a1 c1 a2 c2 a3 c3 a4 c4 c4' a5 c5 e2 e3 s4 show ?thesis by simp
qed

text \<open>
  Claim C7. For a plan of \<open>n > 0\<close> steps \<^verbatim>\<open>Executor.execute\<close> sends exactly \<open>n\<close> requests after
  those sent before, the \<open>k\<close>-th for the \<open>k\<close>-th step of the plan with the transcript of the
  steps before it; that request holds the result of every earlier step as a contiguous
  part; the function returns the result of the last step; and the result of a step whose
  model call gave \<^verbatim>\<open>None\<close> is the empty text. When the planner returns the empty plan,
  \<^verbatim>\<open>PlanAndSolveAgent.run\<close> returns after the one request of the planner, without calling
  the executor.
\<close>

theorem executor_runs_plan:
  "(plan \<noteq> [] \<longrightarrow>
      length (snd (execute repr llm_client requests question plan)) = length requests + length plan
    \<and> take (length requests) (snd (execute repr llm_client requests question plan)) = requests
    \<and> (\<forall>k<length plan.
          snd (execute repr llm_client requests question plan) ! (length requests + k) =
            executor_request repr question plan
              (transcript repr llm_client (snd (execute repr llm_client requests question plan)) plan
                 (length requests) k)
              (plan ! k))
    \<and> (\<forall>k<length plan. \<forall>j<k.
          sublist
            (step_result llm_client (snd (execute repr llm_client requests question plan)) (length requests + j))
            (content (hd (snd (execute repr llm_client requests question plan) ! (length requests + k)))))
    \<and> fst (execute repr llm_client requests question plan) =
        Inr (step_result llm_client (snd (execute repr llm_client requests question plan))
               (length requests + length plan - 1)))
   \<and> (llm_client (take (Suc j) log) = None \<longrightarrow> step_result llm_client log j = [])
   \<and> (fst (planner_plan literal_eval llm_client [] question) = [] \<longrightarrow>
        plan_and_solve_run literal_eval repr llm_client question = (Inr None, [planner_request question]))"
proof (intro conjI impI)
  let ?st0 = "\<lparr>exec_history = [], exec_response = None, exec_calls = requests\<rparr>"
  let ?L = "snd (execute repr llm_client requests question plan)"
  assume ne: "plan \<noteq> []"
  note eq = execute_eq [OF ne, of repr llm_client requests question]
  from eq have L: "?L = exec_calls (execute_loop repr llm_client question plan 0 plan ?st0)" by blast
  from execute_loop_calls [where st = ?st0 and repr = repr and c = llm_client and q = question and plan = plan and i = 0 and steps = plan]
  show "length ?L = length requests + length plan" and "take (length requests) ?L = requests"
    unfolding L by simp_all
  have log: "(\<forall>k<length plan. ?L ! (length requests + 0 + k) =
            executor_request repr question plan (transcript repr llm_client ?L plan (length requests) (0 + k)) (plan ! (0 + k)))
       \<and> (plan \<noteq> [] \<longrightarrow> exec_response (execute_loop repr llm_client question plan 0 plan ?st0)
              = Some (step_result llm_client ?L (length requests + 0 + length plan - 1)))"
    by (rule execute_loop_log [OF L]) (simp_all add: transcript_def)
  then show at: "\<forall>k<length plan. ?L ! (length requests + k) =
            executor_request repr question plan (transcript repr llm_client ?L plan (length requests) k) (plan ! k)"
    by simp
  show "\<forall>k<length plan. \<forall>j<k.
          sublist (step_result llm_client ?L (length requests + j))
            (content (hd (?L ! (length requests + k))))"
  proof (intro allI impI)
    fix k j assume k: "k < length plan" and j: "j < k"
    from j have "transcript repr llm_client ?L plan (length requests) k \<noteq> []"
      by (intro transcript_nonempty) simp
    then have "sublist (transcript repr llm_client ?L plan (length requests) k)
        (content (hd (?L ! (length requests + k))))"
      using at k by (simp add: request_contains_history)
    with transcript_contains [OF j, of llm_client ?L "length requests" repr plan]
    show "sublist (step_result llm_client ?L (length requests + j))
        (content (hd (?L ! (length requests + k))))"
      by (rule sublist_trans)
  qed
  from log ne eq show "fst (execute repr llm_client requests question plan) =
        Inr (step_result llm_client ?L (length requests + length plan - 1))"
    by simp
next
  assume "llm_client (take (Suc j) log) = None"
  then show "step_result llm_client log j = []"
    by (simp add: step_result_def or_empty_def)
next
  assume "fst (planner_plan literal_eval llm_client [] question) = []"
  then show "plan_and_solve_run literal_eval repr llm_client question = (Inr None, [planner_request question])"
    by (auto simp: plan_and_solve_run_def planner_plan_def Let_def split: prod.splits sum.splits)
qed

text \<open>
  An instance for C7: a plan of three steps and a model whose second call fails; and a
  planner response without a fence.
\<close>

theorem executor_runs_plan_witness:
  "example_plan \<noteq> []
   \<and> length (snd (execute example_repr example_answers [] (lit ''q'') example_plan)) = 3
   \<and> sublist (lit ''15'')
        (content (hd (snd (execute example_repr example_answers [] (lit ''q'') example_plan) ! 2)))
   \<and> example_answers (take (Suc 1) (snd (execute example_repr example_answers [] (lit ''q'') example_plan))) = None
   \<and> step_result example_answers (snd (execute example_repr example_answers [] (lit ''q'') example_plan)) 1 = []
   \<and> fst (execute example_repr example_answers [] (lit ''q'') example_plan) = Inr (lit ''45'')
   \<and> fst (planner_plan example_literal_eval (scripted [Some (lit ''no plan'')]) [] (lit ''q'')) = []
   \<and> plan_and_solve_run example_literal_eval example_repr (scripted [Some (lit ''no plan'')]) (lit ''q'')
       = (Inr None, [planner_request (lit ''q'')])"
proof -
  let ?L = "snd (execute example_repr example_answers [] (lit ''q'') example_plan)"
  have ne: "example_plan \<noteq> []" and n: "length example_plan = 3"
    by (simp_all add: example_plan_def)
  note t = executor_runs_plan [where plan = example_plan and repr = example_repr
      and llm_client = example_answers and requests = "[]" and question = "lit ''q''"
      and log = ?L and j = 1, THEN conjunct1, rule_format, OF ne]
  from t n have len: "length ?L = 3" by simp
  from len have r0: "step_result example_answers ?L 0 = lit ''15''"
    and r2: "step_result example_answers ?L 2 = lit ''45''"
    and r1: "example_answers (take (Suc 1) ?L) = None"
    by (simp_all add: step_result_def example_answers_def scripted_def or_empty_def)
  from t have q: "\<forall>k<length example_plan. \<forall>j<k.
      sublist (step_result example_answers ?L (length ([]::message list list) + j))
        (content (hd (?L ! (length ([]::message list list) + k))))"
    by blast
  have "(2::nat) < length example_plan" and "(0::nat) < 2" using n by simp_all
  with q have "sublist (step_result example_answers ?L (length ([]::message list list) + 0))
        (content (hd (?L ! (length ([]::message list list) + 2))))"
    by blast
  with r0 have s: "sublist (lit ''15'') (content (hd (?L ! 2)))" by (simp add: numeral_2_eq_2)
  from t n r2 have f: "fst (execute example_repr example_answers [] (lit ''q'') example_plan) = Inr (lit ''45'')"
    by simp
  from r1 executor_runs_plan [where llm_client = example_answers and log = ?L and j = 1,
      THEN conjunct2, THEN conjunct1]
  have c: "step_result example_answers ?L 1 = []" by blast
  have "find_after FENCE_PYTHON (lit ''no plan'') = None"
    by (simp add: FENCE_PYTHON_def lit_def)
  then have p: "fst (planner_plan example_literal_eval (scripted [Some (lit ''no plan'')]) [] (lit ''q'')) = []"
    by (simp add: planner_plan_def parse_plan_def plan_str_no_fence Let_def scripted_def or_empty_def)
  from p executor_runs_plan [where literal_eval = example_literal_eval
      and llm_client = "scripted [Some (lit ''no plan'')]" and question = "lit ''q''" and repr = example_repr,
      THEN conjunct2, THEN conjunct2]
  have o: "plan_and_solve_run example_literal_eval example_repr (scripted [Some (lit ''no plan'')]) (lit ''q'')
       = (Inr None, [planner_request (lit ''q'')])" by blast
  from ne len s r1 c f p o show ?thesis by blast
qed

end
